theory Spec2Isabelle
  imports Complex_Main
begin

section \<open>The inference driver \<open>infer.py\<close> of SSD-TensorFlow\<close>

text \<open>
  The script has two functions: the generator \<open>sample_generator\<close>, which cuts the list
  of input files into batches of decoded images, and \<open>main\<close>, which resolves a
  checkpoint, loads the image size, feeds the batches to the network and optionally
  saves the predictions. Both are embedded below as they are written, statement by
  statement.

  Everything outside the script (the file system, TensorFlow, OpenCV, the pickled
  training data, the network) is a field of the record \<open>env\<close>: the script is verified
  for every environment. Exceptions are values of the type \<open>exn\<close>; what the script
  prints, creates and saves is a list of \<open>effect\<close>s in program order.
\<close>

subsection \<open>Python values and exceptions\<close>

text \<open>
  The exceptions that the statements of the script can raise. The three classes named
  by the handler at line 101 keep their message, since the handler prints \<open>str(e)\<close>.
  \<open>IOError\<close> stands for \<open>OSError\<close> and its subclasses other than
  \<open>FileNotFoundError\<close>; \<open>CvError\<close> is \<open>cv2.error\<close>.
\<close>

datatype exn =
    FileNotFoundError string
  | IOError string
  | KeyError string
  | UnpicklingError
  | EOFError
  | TypeError
  | AttributeError
  | IndexError
  | ValueError
  | ZeroDivisionError
  | CvError

text \<open>The namedtuple \<open>Size(w, h)\<close> held by \<open>preset.image_size\<close>.\<close>

record py_size =
  size_w :: int
  size_h :: int

text \<open>Values handed to \<open>print\<close> and read from the argument namespace.\<close>

datatype pyval =
    VStr string
  | VInt int
  | VBool bool
  | VStrs "string list"
  | VSize py_size

text \<open>
  What \<open>pickle.load\<close> can return, as far as lines 99 and 100 tell objects apart: a
  dictionary, an object whose attribute \<open>image_size\<close> is a \<open>Size\<close>, or anything else.
\<close>

datatype pyobj =
    PyDict "(string \<times> pyobj) list"
  | PyPreset py_size
  | PyOther

text \<open>
  Element types of arrays: \<open>cv2.imread\<close> gives \<open>uint8\<close>, line 45 converts to
  \<open>float32\<close>.
\<close>

datatype dtype = UInt8 | Float32

text \<open>
  An image array of shape \<open>(rows, cols, channels)\<close>; the pixel values are the
  environment's business and stay abstract.
\<close>

record 'p image =
  rows :: nat
  cols :: nat
  channels :: nat
  elem_type :: dtype
  pixels :: 'p

subsection \<open>The command line and the environment\<close>

text \<open>The namespace returned by \<open>parser.parse_args()\<close>, lines 54 to 71.\<close>

record args =
  files :: "string list"
  name :: string
  checkpoint :: int
  training_data :: string
  output_dir :: string
  annotate :: bool
  dump_prediction :: bool
  batch_size :: int

text \<open>
  The environment of one run.
  \<^item> \<open>get_checkpoint_state n\<close>: \<open>tf.train.get_checkpoint_state(n)\<close>, \<open>None\<close> or the
    state's \<open>all_model_checkpoint_paths\<close>;
  \<^item> \<open>path_exists\<close>: \<open>os.path.exists\<close>;
  \<^item> \<open>read_pickle p\<close>: opening \<open>p\<close> and \<open>pickle.load\<close> of it (lines 97 and 98);
  \<^item> \<open>imread\<close>: \<open>cv2.imread\<close>, which returns \<open>None\<close> for a file it cannot decode;
  \<^item> \<open>resize\<close>: \<open>cv2.resize\<close> on an image and a \<open>(width, height)\<close> pair;
  \<^item> \<open>sess_run\<close>: \<open>sess.run(net.result, ...)\<close> on a batch, one output row per index;
  \<^item> \<open>makedirs d\<close>: \<open>os.makedirs(d)\<close>, \<open>None\<close> when the directory was created, or
    the exception it raised (a parent that is a regular file, a missing permission);
  \<^item> \<open>np_save fn row\<close>: \<open>np.save(fn, row)\<close>, \<open>None\<close> when the file was written, or the
    exception it raised (an output directory that is a regular file, a full disk);
  \<^item> \<open>py_str\<close>: the builtin \<open>str\<close>.
  The files read by the run are not changed while it runs, and the calls into
  TensorFlow return.
\<close>

record ('p, 'b) env =
  get_checkpoint_state :: "string \<Rightarrow> string list option"
  path_exists :: "string \<Rightarrow> bool"
  read_pickle :: "string \<Rightarrow> exn + pyobj"
  imread :: "string \<Rightarrow> 'p image option"
  resize :: "'p image \<Rightarrow> int \<times> int \<Rightarrow> exn + 'p image"
  sess_run :: "'p image list \<Rightarrow> 'b list"
  makedirs :: "string \<Rightarrow> exn option"
  np_save :: "string \<Rightarrow> 'b \<Rightarrow> exn option"
  py_str :: "pyval \<Rightarrow> string"

text \<open>
  What a run does to the outside, in order. A directory that could not be created and
  a file that could not be written are not effects: the call raised instead.
\<close>

datatype ('p, 'b) effect =
    Print "pyval list"
  | MakeDirs string
  | BuildFromMetagraph string string
  | SessRun "'p image list"
  | NpSave string 'b

text \<open>How \<open>main\<close> ends: \<open>return c\<close>, or an exception that nothing catches.\<close>

datatype outcome = Exit int | Uncaught exn

type_synonym ('p, 'b) run = "('p, 'b) effect list \<times> outcome"

subsection \<open>Builtins used by the script\<close>

text \<open>
  \<open>range(start, stop, step)\<close>: a zero step raises \<open>ValueError\<close>; the length is the one
  CPython computes.
\<close>

definition range_len :: "int \<Rightarrow> int \<Rightarrow> int \<Rightarrow> nat" where
  "range_len start stop step =
     (if 0 < step \<and> start < stop then nat ((stop - start - 1) div step + 1)
      else if step < 0 \<and> stop < start then nat ((start - stop - 1) div (- step) + 1)
      else 0)"

definition py_range :: "int \<Rightarrow> int \<Rightarrow> int \<Rightarrow> exn + int list" where
  "py_range start stop step =
     (if step = 0 then Inl ValueError
      else Inr (map (\<lambda>k. start + int k * step) [0..<range_len start stop step]))"

text \<open>
  \<open>xs[lo:hi]\<close>: a negative bound counts from the end, and both bounds are clamped to
  the list.
\<close>

definition adjust_index :: "int \<Rightarrow> int \<Rightarrow> int" where
  "adjust_index i n = (if i < 0 then max 0 (i + n) else min i n)"

definition py_slice :: "'a list \<Rightarrow> int \<Rightarrow> int \<Rightarrow> 'a list" where
  "py_slice xs lo hi =
     (let n = int (length xs); l = adjust_index lo n; h = adjust_index hi n
      in take (nat (h - l)) (drop (nat l) xs))"

text \<open>\<open>xs[i]\<close>: a negative index counts from the end; out of range raises.\<close>

definition py_index :: "'a list \<Rightarrow> int \<Rightarrow> exn + 'a" where
  "py_index xs i =
     (if 0 \<le> i \<and> i < int (length xs) then Inr (xs ! nat i)
      else if i < 0 \<and> - int (length xs) \<le> i then Inr (xs ! nat (int (length xs) + i))
      else Inl IndexError)"

text \<open>\<open>os.path.basename\<close> (POSIX): what follows the last slash.\<close>

definition basename :: "string \<Rightarrow> string" where
  "basename p = rev (takeWhile (\<lambda>c. c \<noteq> CHR ''/'') (rev p))"

text \<open>\<open>image.astype(np.float32)\<close>: same shape and values, new element type.\<close>

definition astype_float32 :: "'p image \<Rightarrow> 'p image" where
  "astype_float32 img = img\<lparr>elem_type := Float32\<rparr>"

text \<open>
  \<open>cv2.resize(cv2.imread(f), size)\<close>: \<open>imread\<close> does not raise on a file it cannot
  decode, it returns \<open>None\<close>, and \<open>resize\<close> raises \<open>cv2.error\<close> on \<open>None\<close>.
\<close>

definition cv2_resize :: "('p, 'b) env \<Rightarrow> 'p image option \<Rightarrow> int \<times> int \<Rightarrow> exn + 'p image" where
  "cv2_resize W src sz = (case src of None \<Rightarrow> Inl CvError | Some img \<Rightarrow> resize W img sz)"

subsection \<open>\<open>sample_generator\<close>, lines 37 to 47\<close>

text \<open>Lines 44 and 45, the decoding of one file.\<close>

definition read_image :: "('p, 'b) env \<Rightarrow> int \<times> int \<Rightarrow> string \<Rightarrow> exn + 'p image" where
  "read_image W sz image_file =
     (case cv2_resize W (imread W image_file) sz of
        Inl e \<Rightarrow> Inl e
      | Inr img \<Rightarrow> Inr (astype_float32 img))"

text \<open>
  The inner loop, lines 43 to 46, with the two lists it appends to. Nothing catches
  the exception of line 44.
\<close>

fun load_batch ::
  "('p, 'b) env \<Rightarrow> int \<times> int \<Rightarrow> string list \<Rightarrow> 'p image list \<Rightarrow> string list
     \<Rightarrow> exn + ('p image list \<times> string list)" where
  "load_batch W sz [] images names = Inr (images, names)"
| "load_batch W sz (image_file # rest) images names =
     (case read_image W sz image_file of
        Inl e \<Rightarrow> Inl e
      | Inr img \<Rightarrow> load_batch W sz rest (images @ [img]) (names @ [basename image_file]))"

text \<open>
  A generator is embedded as what its consumer sees: the values it yields, in order,
  and then how it ends, exhausted (\<open>None\<close>) or by an exception (\<open>Some e\<close>). The first
  component of a yielded pair stands for \<open>np.array(images)\<close>, the list index being the
  leading axis.
\<close>

type_synonym 'p batch = "'p image list \<times> string list"

type_synonym 'p generated = "'p batch list \<times> exn option"

text \<open>The outer loop, lines 39 to 47, over the offsets that \<open>range\<close> produced.\<close>

fun gen_loop ::
  "('p, 'b) env \<Rightarrow> string list \<Rightarrow> int \<times> int \<Rightarrow> int \<Rightarrow> int list \<Rightarrow> 'p generated" where
  "gen_loop W samples sz bsz [] = ([], None)"
| "gen_loop W samples sz bsz (offset # offsets) =
     (case load_batch W sz (py_slice samples offset (offset + bsz)) [] [] of
        Inl e \<Rightarrow> ([], Some e)
      | Inr b \<Rightarrow> (case gen_loop W samples sz bsz offsets of (bs, r) \<Rightarrow> (b # bs, r)))"

definition sample_generator ::
  "('p, 'b) env \<Rightarrow> string list \<Rightarrow> py_size \<Rightarrow> int \<Rightarrow> 'p generated" where
  "sample_generator W samples image_size bsz =
     (let sz = (size_w image_size, size_h image_size)
      in case py_range 0 (int (length samples)) bsz of
           Inl e \<Rightarrow> ([], Some e)
         | Inr offsets \<Rightarrow> gen_loop W samples sz bsz offsets)"

subsection \<open>\<open>main\<close>, lines 50 to 162\<close>

text \<open>
  Attribute access on the namespace: the parser defines exactly these eight
  destinations, any other name raises \<open>AttributeError\<close>.
\<close>

definition getattr :: "args \<Rightarrow> string \<Rightarrow> exn + pyval" where
  "getattr a attr =
     (if attr = ''files'' then Inr (VStrs (files a))
      else if attr = ''name'' then Inr (VStr (name a))
      else if attr = ''checkpoint'' then Inr (VInt (checkpoint a))
      else if attr = ''training_data'' then Inr (VStr (training_data a))
      else if attr = ''output_dir'' then Inr (VStr (output_dir a))
      else if attr = ''annotate'' then Inr (VBool (annotate a))
      else if attr = ''dump_prediction'' then Inr (VBool (dump_prediction a))
      else if attr = ''batch_size'' then Inr (VInt (batch_size a))
      else Inl AttributeError)"

text \<open>
  Lines 76 to 91: the checkpoint and its metagraph. The handler of line 83 builds its
  message from \<open>args.checkpoint_file\<close>.
\<close>

definition resolve_checkpoint ::
  "('p, 'b) env \<Rightarrow> args \<Rightarrow> ('p, 'b) run + (string \<times> string)" where
  "resolve_checkpoint W a =
     (case get_checkpoint_state W (name a) of
        None \<Rightarrow> Inl ([Print [VStr (''[!] No network state found in '' @ name a)]], Exit 1)
      | Some paths \<Rightarrow>
          (case py_index paths (checkpoint a) of
             Inl e \<Rightarrow>
               (case getattr a ''checkpoint_file'' of
                  Inl e' \<Rightarrow> Inl ([], Uncaught e')
                | Inr v \<Rightarrow>
                    Inl ([Print [VStr (''[!] Cannot find checkpoint '' @ py_str W v)]], Exit 1))
           | Inr checkpoint_file \<Rightarrow>
               (let metagraph_file = checkpoint_file @ ''.meta''
                in if \<not> path_exists W metagraph_file
                   then Inl ([Print [VStr (''[!] Cannot find metagraph '' @ metagraph_file)]],
                             Exit 1)
                   else Inr (checkpoint_file, metagraph_file))))"

text \<open>\<open>data['preset']\<close> and \<open>preset.image_size\<close>, lines 99 and 100.\<close>

definition subscript :: "pyobj \<Rightarrow> string \<Rightarrow> exn + pyobj" where
  "subscript obj k =
     (case obj of
        PyDict kvs \<Rightarrow>
          (case map_of kvs k of
             None \<Rightarrow> Inl (KeyError ([CHR 0x27] @ k @ [CHR 0x27]))
           | Some v \<Rightarrow> Inr v)
      | _ \<Rightarrow> Inl TypeError)"

definition get_image_size :: "pyobj \<Rightarrow> exn + py_size" where
  "get_image_size obj = (case obj of PyPreset s \<Rightarrow> Inr s | _ \<Rightarrow> Inl AttributeError)"

text \<open>The body of the \<open>try\<close>, lines 97 to 100.\<close>

definition load_training_data :: "('p, 'b) env \<Rightarrow> string \<Rightarrow> exn + py_size" where
  "load_training_data W path =
     (case read_pickle W path of
        Inl e \<Rightarrow> Inl e
      | Inr data \<Rightarrow>
          (case subscript data ''preset'' of
             Inl e \<Rightarrow> Inl e
           | Inr preset \<Rightarrow> get_image_size preset))"

text \<open>
  The handler of line 101 catches \<open>FileNotFoundError\<close>, \<open>IOError\<close> and \<open>KeyError\<close> and
  nothing else.
\<close>

fun handled_message :: "exn \<Rightarrow> string option" where
  "handled_message (FileNotFoundError m) = Some m"
| "handled_message (IOError m) = Some m"
| "handled_message (KeyError m) = Some m"
| "handled_message _ = None"

definition load_image_size :: "('p, 'b) env \<Rightarrow> args \<Rightarrow> ('p, 'b) run + py_size" where
  "load_image_size W a =
     (case load_training_data W (training_data a) of
        Inl e \<Rightarrow>
          (case handled_message e of
             Some m \<Rightarrow> Inl ([Print [VStr ''[!] Unable to load training data:'', VStr m]], Exit 1)
           | None \<Rightarrow> Inl ([], Uncaught e))
      | Inr image_size \<Rightarrow> Inr image_size)"

text \<open>
  Lines 109 to 119: the files to analyse and the output directory. Nothing catches
  what \<open>os.makedirs\<close> raises.
\<close>

definition resolve_files ::
  "('p, 'b) env \<Rightarrow> args \<Rightarrow> ('p, 'b) run + (string list \<times> ('p, 'b) effect list)" where
  "resolve_files W a =
     (if annotate a then
        (let fs = (if files a \<noteq> [] then filter (\<lambda>x. path_exists W x) (files a) else [])
         in if fs = [] then Inl ([Print [VStr ''[!] No files specified'']], Exit 1)
            else if \<not> path_exists W (output_dir a)
            then (case makedirs W (output_dir a) of
                    Some e \<Rightarrow> Inl ([], Uncaught e)
                  | None \<Rightarrow> Inr (fs, [MakeDirs (output_dir a)]))
            else Inr (fs, []))
      else Inr ([], []))"

text \<open>Lines 124 to 130.\<close>

definition print_parameters ::
  "args \<Rightarrow> string \<Rightarrow> string \<Rightarrow> py_size \<Rightarrow> string list \<Rightarrow> ('p, 'b) effect list" where
  "print_parameters a checkpoint_file metagraph_file image_size fs =
     [Print [VStr ''[i] Project name:      '', VStr (name a)],
      Print [VStr ''[i] Network checkpoint:'', VStr checkpoint_file],
      Print [VStr ''[i] Metagraph file:    '', VStr metagraph_file],
      Print [VStr ''[i] Training data:     '', VStr (training_data a)],
      Print [VStr ''[i] Image size:        '', VSize image_size],
      Print [VStr ''[i] Number of files:   '', VInt (int (length fs))],
      Print [VStr ''[i] Batch size:        '', VInt (batch_size a)]]"

text \<open>
  Lines 157 to 159, the loop over \<open>range(len(names))\<close>: \<open>names[i]\<close> is in range,
  \<open>boxes[i]\<close> raises when the network returned fewer rows, and \<open>np.save\<close> raises
  when the file cannot be written. Nothing catches either.
\<close>

fun dump_loop ::
  "('p, 'b) env \<Rightarrow> string \<Rightarrow> string list \<Rightarrow> 'b list \<Rightarrow> nat list
     \<Rightarrow> ('p, 'b) effect list \<times> exn option" where
  "dump_loop W dir names boxes [] = ([], None)"
| "dump_loop W dir names boxes (i # rest) =
     (let fn = dir @ ''/'' @ names ! i @ ''.npy''
      in case py_index boxes (int i) of
           Inl e \<Rightarrow> ([], Some e)
         | Inr box \<Rightarrow>
             (case np_save W fn box of
                Some e \<Rightarrow> ([], Some e)
              | None \<Rightarrow>
                  (case dump_loop W dir names boxes rest of
                     (effs, r) \<Rightarrow> (NpSave fn box # effs, r))))"

text \<open>The body of the loop of line 147, for one yielded batch.\<close>

definition process_batch ::
  "('p, 'b) env \<Rightarrow> args \<Rightarrow> 'p batch \<Rightarrow> ('p, 'b) effect list \<times> exn option" where
  "process_batch W a b =
     (case b of (x, names) \<Rightarrow>
        (let boxes = sess_run W x
         in if annotate a \<and> dump_prediction a
            then (case dump_loop W (output_dir a) names boxes [0..<length names] of
                    (effs, r) \<Rightarrow> (SessRun x # effs, r))
            else ([SessRun x], None)))"

text \<open>
  The loop of line 147 over the generator: each yielded batch is processed before
  the generator is advanced again, so an exception of the body hides whatever the
  generator would have done next, and the generator's own exception comes after the
  batches it yielded.
\<close>

fun consume ::
  "('p, 'b) env \<Rightarrow> args \<Rightarrow> 'p batch list \<Rightarrow> exn option \<Rightarrow> ('p, 'b) effect list \<times> exn option" where
  "consume W a [] ending = ([], ending)"
| "consume W a (b # bs) ending =
     (case process_batch W a b of
        (effs, Some e) \<Rightarrow> (effs, Some e)
      | (effs, None) \<Rightarrow> (case consume W a bs ending of (effs', r) \<Rightarrow> (effs @ effs', r)))"

text \<open>
  Lines 135 to 162. Line 144 divides by the batch size before the generator is first
  advanced; its result is only the total of the progress bar, which goes to the
  standard error stream and is left out.
\<close>

definition process_images ::
  "('p, 'b) env \<Rightarrow> args \<Rightarrow> string \<Rightarrow> string \<Rightarrow> py_size \<Rightarrow> string list \<Rightarrow> ('p, 'b) run" where
  "process_images W a checkpoint_file metagraph_file image_size fs =
     (let start = [Print [VStr ''[i] Creating the model...''],
                   BuildFromMetagraph metagraph_file checkpoint_file]
      in if batch_size a = 0 then (start, Uncaught ZeroDivisionError)
         else (case sample_generator W fs image_size (batch_size a) of
                 (bs, ending) \<Rightarrow>
                   (case consume W a bs ending of
                      (effs, Some e) \<Rightarrow> (start @ effs, Uncaught e)
                    | (effs, None) \<Rightarrow>
                        (start @ effs @ [Print [VStr ''[i] All done.'']], Exit 0))))"

definition main :: "('p, 'b) env \<Rightarrow> args \<Rightarrow> ('p, 'b) run" where
  "main W a =
     (case resolve_checkpoint W a of
        Inl r \<Rightarrow> r
      | Inr (checkpoint_file, metagraph_file) \<Rightarrow>
          (case load_image_size W a of
             Inl r \<Rightarrow> r
           | Inr image_size \<Rightarrow>
               (case resolve_files W a of
                  Inl r \<Rightarrow> r
                | Inr (fs, made) \<Rightarrow>
                    (case process_images W a checkpoint_file metagraph_file image_size fs of
                       (effs, r) \<Rightarrow>
                         (made @ print_parameters a checkpoint_file metagraph_file image_size fs
                            @ effs, r)))))"

text \<open>
  Line 165, \<open>sys.exit(main())\<close>: the exit status of the process and whether the
  interpreter printed a traceback. An exception that leaves \<open>main\<close> gives status 1
  with a traceback.
\<close>

definition script :: "('p, 'b) env \<Rightarrow> args \<Rightarrow> ('p, 'b) effect list \<times> int \<times> bool" where
  "script W a =
     (case main W a of
        (effs, Exit c) \<Rightarrow> (effs, c, False)
      | (effs, Uncaught e) \<Rightarrow> (effs, 1, True))"

subsection \<open>Notions used to state the properties\<close>

text \<open>A file decodes when lines 44 and 45 raise nothing on it.\<close>

definition decodes :: "('p, 'b) env \<Rightarrow> py_size \<Rightarrow> string \<Rightarrow> bool" where
  "decodes W image_size f =
     (case read_image W (size_w image_size, size_h image_size) f of
        Inl e \<Rightarrow> False
      | Inr img \<Rightarrow> True)"

text \<open>The calls of \<open>np.save\<close> among the effects of a run: path and saved row.\<close>

fun saved :: "('p, 'b) effect list \<Rightarrow> (string \<times> 'b) list" where
  "saved [] = []"
| "saved (NpSave fn box # effs) = (fn, box) # saved effs"
| "saved (eff # effs) = saved effs"


text \<open>
  The effects of the part of \<open>main\<close> that works with the network: building it,
  running it, saving what it returned.
\<close>

fun model_work :: "('p, 'b) effect \<Rightarrow> bool" where
  "model_work (BuildFromMetagraph m c) = True"
| "model_work (SessRun x) = True"
| "model_work (NpSave fn box) = True"
| "model_work eff = False"

text \<open>
  What OpenCV documents of \<open>cv2.resize(src, (w, h))\<close>: the result has \<open>h\<close> rows and \<open>w\<close>
  columns. The script is verified for every environment; this is the one fact about
  OpenCV that the shape of the result needs.
\<close>

definition resize_gives_size :: "('p, 'b) env \<Rightarrow> bool" where
  "resize_gives_size W =
     (\<forall>src w h out. resize W src (w, h) = Inr out \<longrightarrow> rows out = nat h \<and> cols out = nat w)"

subsection \<open>A concrete environment\<close>

text \<open>
  Three checkpoints, of which only the last has a metagraph; three images of different
  sizes, two more images that share their base name, and a text file; a network that
  returns one number per image. Nothing can be created or written below the text
  file, everything else can.
\<close>

definition demo_env :: "(nat, nat) env" where
  "demo_env =
     \<lparr>get_checkpoint_state =
        (\<lambda>n. if n = ''test'' then Some [''test/ckpt-1'', ''test/ckpt-2'', ''test/ckpt-3'']
              else None),
      path_exists =
        (\<lambda>p. p \<in> {''test/ckpt-3.meta'', ''in/a.jpg'', ''in/b.jpg'', ''in/c.jpg'',
                    ''cats/a.jpg'', ''dogs/a.jpg'', ''notes.txt''}),
      read_pickle =
        (\<lambda>p. if p = ''data.pkl''
              then Inr (PyDict [(''preset'', PyPreset \<lparr>size_w = 300, size_h = 200\<rparr>)])
              else if p = ''nopreset.pkl'' then Inr (PyDict [])
              else if p = ''broken.pkl'' then Inl UnpicklingError
              else Inl (FileNotFoundError ''No such file or directory'')),
      imread =
        (\<lambda>f. if f = ''in/a.jpg''
              then Some \<lparr>rows = 480, cols = 640, channels = 3, elem_type = UInt8, pixels = 1\<rparr>
              else if f = ''in/b.jpg''
              then Some \<lparr>rows = 100, cols = 50, channels = 3, elem_type = UInt8, pixels = 2\<rparr>
              else if f = ''in/c.jpg''
              then Some \<lparr>rows = 200, cols = 300, channels = 3, elem_type = UInt8, pixels = 3\<rparr>
              else if f = ''cats/a.jpg''
              then Some \<lparr>rows = 64, cols = 64, channels = 3, elem_type = UInt8, pixels = 4\<rparr>
              else if f = ''dogs/a.jpg''
              then Some \<lparr>rows = 32, cols = 48, channels = 3, elem_type = UInt8, pixels = 5\<rparr>
              else None),
      resize =
        (\<lambda>img sz. case sz of (w, h) \<Rightarrow>
           if w \<le> 0 \<or> h \<le> 0 then Inl CvError
           else Inr (img\<lparr>rows := nat h, cols := nat w\<rparr>)),
      sess_run = map (\<lambda>img. 10 * pixels img),
      makedirs =
        (\<lambda>d. if take 10 d = ''notes.txt/'' then Some (IOError ''Not a directory'') else None),
      np_save =
        (\<lambda>fn row. if take 10 fn = ''notes.txt/'' then Some (IOError ''Not a directory'')
                  else None),
      py_str = (\<lambda>v. [])\<rparr>"

definition demo_size :: py_size where
  "demo_size = \<lparr>size_w = 300, size_h = 200\<rparr>"

definition demo_args :: args where
  "demo_args =
     \<lparr>files = [''in/a.jpg'', ''gone.jpg'', ''in/b.jpg'', ''in/c.jpg''], name = ''test'',
      checkpoint = - 1, training_data = ''data.pkl'', output_dir = ''out'', annotate = True,
      dump_prediction = True, batch_size = 2\<rparr>"

definition demo_samples :: "string list" where
  "demo_samples = [''in/a.jpg'', ''in/b.jpg'', ''in/c.jpg'']"

text \<open>What the generator yields on the three images with batch size 2.\<close>

definition demo_batches :: "nat batch list" where
  "demo_batches =
     [([\<lparr>rows = 200, cols = 300, channels = 3, elem_type = Float32, pixels = 1\<rparr>,
        \<lparr>rows = 200, cols = 300, channels = 3, elem_type = Float32, pixels = 2\<rparr>],
       [''a.jpg'', ''b.jpg'']),
      ([\<lparr>rows = 200, cols = 300, channels = 3, elem_type = Float32, pixels = 3\<rparr>],
       [''c.jpg''])]"

section \<open>Properties\<close>

subsection \<open>Ranges and slices\<close>

lemma range_len_bounds:
  assumes "0 < B"
  shows "(int (range_len 0 (int n) B) - 1) * B < int n"
    and "int n \<le> int (range_len 0 (int n) B) * B"
proof -
  let ?q = "(int n - 1) div B"
  show "(int (range_len 0 (int n) B) - 1) * B < int n"
  proof (cases "n = 0")
    case True
    with assms show ?thesis by (simp add: range_len_def)
  next
    case False
    then have q0: "0 \<le> ?q" using assms by (simp add: pos_imp_zdiv_nonneg_iff)
    have "int n - 1 = ?q * B + (int n - 1) mod B" by simp
    moreover have "0 \<le> (int n - 1) mod B" using assms by simp
    ultimately have "?q * B \<le> int n - 1" by linarith
    then show ?thesis using False assms q0 by (simp add: range_len_def)
  qed
  show "int n \<le> int (range_len 0 (int n) B) * B"
  proof (cases "n = 0")
    case True
    with assms show ?thesis by (simp add: range_len_def)
  next
    case False
    then have q0: "0 \<le> ?q" using assms by (simp add: pos_imp_zdiv_nonneg_iff)
    have "int n - 1 = ?q * B + (int n - 1) mod B" by simp
    moreover have "(int n - 1) mod B < B" using assms by simp
    ultimately have "int n - 1 < ?q * B + B" by linarith
    then show ?thesis using False assms q0 by (simp add: range_len_def algebra_simps)
  qed
qed

lemma range_len_ceiling:
  assumes "0 < B"
  shows "int (range_len 0 (int n) B) = \<lceil>real n / real_of_int B\<rceil>"
proof -
  let ?q = "int (range_len 0 (int n) B)"
  have B: "0 < real_of_int B" using assms by simp
  have "real_of_int ((?q - 1) * B) < real_of_int (int n)"
    using range_len_bounds(1) [OF assms, of n] by (simp only: of_int_less_iff)
  then have lo: "real_of_int ?q - 1 < real n / real_of_int B"
    using B by (simp add: field_simps)
  have "real_of_int (int n) \<le> real_of_int (?q * B)"
    using range_len_bounds(2) [OF assms, of n] by (simp only: of_int_le_iff)
  then have hi: "real n / real_of_int B \<le> real_of_int ?q"
    using B by (simp add: field_simps)
  show ?thesis using ceiling_unique [OF lo hi] by simp
qed

lemma py_slice_nat:
  "py_slice xs (int lo) (int hi) = take (hi - lo) (drop lo xs)"
proof (cases "lo \<le> length xs")
  case True
  show ?thesis
  proof (cases "hi \<le> length xs")
    case h: True
    with True show ?thesis
      by (simp add: py_slice_def adjust_index_def Let_def min_def nat_diff_distrib')
  next
    case h: False
    with True have "py_slice xs (int lo) (int hi) = take (length xs - lo) (drop lo xs)"
      by (simp add: py_slice_def adjust_index_def Let_def min_def nat_diff_distrib')
    also have "\<dots> = take (hi - lo) (drop lo xs)"
      using h by simp
    finally show ?thesis .
  qed
next
  case False
  then show ?thesis
    by (simp add: py_slice_def adjust_index_def Let_def min_def)
qed

lemma py_slice_chunk:
  assumes "0 < B"
  shows "py_slice xs (int k * B) (int k * B + B) = take (nat B) (drop (k * nat B) xs)"
proof -
  have "py_slice xs (int (k * nat B)) (int (k * nat B + nat B))
          = take (nat B) (drop (k * nat B) xs)"
    by (subst py_slice_nat) simp
  moreover have "int (k * nat B) = int k * B" and "int (k * nat B + nat B) = int k * B + B"
    using assms by simp_all
  ultimately show ?thesis by metis
qed

lemma chunks_concat:
  "concat (map (\<lambda>k. take b (drop (k * b) xs)) [0..<n]) = take (n * b) xs"
proof (induction n)
  case 0
  show ?case by simp
next
  case (Suc n)
  have "take (n * b) xs @ take b (drop (n * b) xs) = take (n * b + b) xs"
    by (simp add: take_add)
  then show ?case using Suc by (simp add: add.commute)
qed

subsection \<open>The inner loop\<close>

lemma load_batch_Inr_D:
  assumes "load_batch W sz fs images names = Inr (images', names')"
  shows "\<exists>new. map (read_image W sz) fs = map Inr new \<and> images' = images @ new
           \<and> names' = names @ map basename fs"
  using assms
proof (induction fs arbitrary: images names)
  case Nil
  then show ?case by simp
next
  case (Cons f fs)
  show ?case
  proof (cases "read_image W sz f")
    case (Inl e)
    with Cons.prems show ?thesis by simp
  next
    case (Inr img)
    with Cons.prems have
      "load_batch W sz fs (images @ [img]) (names @ [basename f]) = Inr (images', names')"
      by simp
    from Cons.IH [OF this] obtain new where
      new: "map (read_image W sz) fs = map Inr new" "images' = (images @ [img]) @ new"
        "names' = (names @ [basename f]) @ map basename fs"
      by blast
    show ?thesis
    proof (intro exI conjI)
      show "map (read_image W sz) (f # fs) = map Inr (img # new)" using Inr new(1) by simp
      show "images' = images @ img # new" using new(2) by simp
      show "names' = names @ map basename (f # fs)" using new(3) by simp
    qed
  qed
qed

lemma load_batch_fails:
  assumes "\<forall>g \<in> set pre. \<exists>img. read_image W sz g = Inr img"
    and "read_image W sz f = Inl e"
  shows "load_batch W sz (pre @ f # post) images names = Inl e"
  using assms
proof (induction pre arbitrary: images names)
  case Nil
  then show ?case by simp
next
  case (Cons g pre)
  then obtain img where "read_image W sz g = Inr img" by auto
  then show ?case using Cons by simp
qed

lemma load_batch_succeeds:
  assumes "\<forall>g \<in> set fs. \<exists>img. read_image W sz g = Inr img"
  shows "\<exists>new. load_batch W sz fs images names = Inr (images @ new, names @ map basename fs)
           \<and> length new = length fs"
  using assms
proof (induction fs arbitrary: images names)
  case Nil
  then show ?case by simp
next
  case (Cons f fs)
  then obtain img where img: "read_image W sz f = Inr img" by auto
  from Cons have "\<forall>g \<in> set fs. \<exists>img. read_image W sz g = Inr img" by simp
  from Cons.IH [OF this, of "images @ [img]" "names @ [basename f]"] obtain new where
    new: "load_batch W sz fs (images @ [img]) (names @ [basename f])
       = Inr ((images @ [img]) @ new, (names @ [basename f]) @ map basename fs)"
    "length new = length fs"
    by blast
  show ?case
  proof (intro exI conjI)
    show "load_batch W sz (f # fs) images names
            = Inr (images @ img # new, names @ map basename (f # fs))"
      using img new(1) by simp
    show "length (img # new) = length (f # fs)" using new(2) by simp
  qed
qed

subsection \<open>The generator\<close>

lemma gen_loop_nth:
  assumes "gen_loop W samples sz B offs = (bs, r)" and "k < length bs"
  shows "k < length offs \<and>
         load_batch W sz (py_slice samples (offs ! k) (offs ! k + B)) [] [] = Inr (bs ! k)"
  using assms
proof (induction offs arbitrary: bs k r)
  case Nil
  then show ?case by simp
next
  case (Cons off offs)
  show ?case
  proof (cases "load_batch W sz (py_slice samples off (off + B)) [] []")
    case (Inl e)
    with Cons.prems show ?thesis by simp
  next
    case (Inr b)
    obtain bs' r' where rest: "gen_loop W samples sz B offs = (bs', r')"
      by (cases "gen_loop W samples sz B offs")
    with Inr Cons.prems have bs: "bs = b # bs'" and r: "r' = r" by simp_all
    show ?thesis
    proof (cases k)
      case 0
      with Inr bs show ?thesis by simp
    next
      case (Suc j)
      with Cons.prems(2) bs have "j < length bs'" by simp
      from Cons.IH [OF rest this] show ?thesis using Suc bs by simp
    qed
  qed
qed

lemma gen_loop_succeeds:
  assumes "\<forall>off \<in> set offs. \<exists>b. load_batch W sz (py_slice samples off (off + B)) [] [] = Inr b"
  shows "\<exists>bs. gen_loop W samples sz B offs = (bs, None) \<and> length bs = length offs"
  using assms
proof (induction offs)
  case Nil
  then show ?case by simp
next
  case (Cons off offs)
  then obtain b where b: "load_batch W sz (py_slice samples off (off + B)) [] [] = Inr b"
    by auto
  from Cons obtain bs where "gen_loop W samples sz B offs = (bs, None)" "length bs = length offs"
    by auto
  with b show ?case by simp
qed

lemma gen_loop_fails:
  assumes "\<forall>off \<in> set pre. \<exists>b. load_batch W sz (py_slice samples off (off + B)) [] [] = Inr b"
    and "load_batch W sz (py_slice samples off (off + B)) [] [] = Inl e"
  shows "\<exists>bs. gen_loop W samples sz B (pre @ off # post) = (bs, Some e)
           \<and> length bs = length pre"
  using assms
proof (induction pre)
  case Nil
  then show ?case by simp
next
  case (Cons p pre)
  then obtain b where b: "load_batch W sz (py_slice samples p (p + B)) [] [] = Inr b"
    by auto
  from Cons obtain bs where
    "gen_loop W samples sz B (pre @ off # post) = (bs, Some e)" "length bs = length pre"
    by auto
  with b show ?case by simp
qed

lemma sample_generator_pos:
  assumes "0 < B"
  shows "sample_generator W samples image_size B =
           gen_loop W samples (size_w image_size, size_h image_size) B
             (map (\<lambda>k. int k * B) [0..<range_len 0 (int (length samples)) B])"
  using assms by (simp add: sample_generator_def py_range_def)

lemma sample_generator_nonpos:
  assumes "B \<le> 0"
  shows "fst (sample_generator W samples image_size B) = []"
  using assms by (simp add: sample_generator_def py_range_def range_len_def)

text \<open>What a yielded batch is, whatever happens later.\<close>

lemma yielded_batch:
  assumes gen: "sample_generator W samples image_size B = (bs, r)" and k: "k < length bs"
  shows "0 < B \<and> k < range_len 0 (int (length samples)) B \<and>
         (\<exists>imgs. bs ! k = (imgs, map basename (take (nat B) (drop (k * nat B) samples))) \<and>
            map (read_image W (size_w image_size, size_h image_size))
              (take (nat B) (drop (k * nat B) samples)) = map Inr imgs)"
proof -
  have B: "0 < B"
  proof (rule ccontr)
    assume "\<not> 0 < B"
    then have "fst (sample_generator W samples image_size B) = []"
      by (simp add: sample_generator_nonpos)
    with gen k show False by simp
  qed
  let ?sz = "(size_w image_size, size_h image_size)"
  let ?offs = "map (\<lambda>k. int k * B) [0..<range_len 0 (int (length samples)) B]"
  from gen have "gen_loop W samples ?sz B ?offs = (bs, r)"
    by (simp add: sample_generator_pos [OF B])
  note nth = gen_loop_nth [OF this k]
  from nth have kq: "k < range_len 0 (int (length samples)) B" by simp
  from nth have
    lb: "load_batch W ?sz (py_slice samples (?offs ! k) (?offs ! k + B)) [] [] = Inr (bs ! k)"
    by (rule conjunct2)
  from kq have "?offs ! k = int k * B" by simp
  with lb have "load_batch W ?sz (take (nat B) (drop (k * nat B) samples)) [] [] = Inr (bs ! k)"
    by (simp add: py_slice_chunk [OF B])
  then have "load_batch W ?sz (take (nat B) (drop (k * nat B) samples)) [] []
               = Inr (fst (bs ! k), snd (bs ! k))" by simp
  from load_batch_Inr_D [OF this] obtain new where
    "map (read_image W ?sz) (take (nat B) (drop (k * nat B) samples)) = map Inr new"
    "fst (bs ! k) = new" "snd (bs ! k) = map basename (take (nat B) (drop (k * nat B) samples))"
    by auto
  then have "bs ! k = (new, map basename (take (nat B) (drop (k * nat B) samples)))"
    by (metis prod.collapse)
  with B kq \<open>map (read_image W ?sz) _ = map Inr new\<close> show ?thesis by blast
qed


lemma range_len_nat:
  assumes "0 < B"
  shows "k < range_len 0 (int n) B \<Longrightarrow> k * nat B < n"
    and "n \<le> range_len 0 (int n) B * nat B"
proof -
  let ?q = "range_len 0 (int n) B"
  have nB: "int (nat B) = B" using assms by simp
  show "n \<le> ?q * nat B"
  proof -
    have "int n \<le> int (?q * nat B)"
      using range_len_bounds(2) [OF assms, of n] by (simp only: of_nat_mult nB)
    then show ?thesis by (simp only: of_nat_le_iff)
  qed
  show "k * nat B < n" if "k < ?q"
  proof -
    from that have "int k \<le> int ?q - 1" by simp
    then have "int k * B \<le> (int ?q - 1) * B"
      using assms by (simp add: mult_right_mono)
    also have "\<dots> < int n" by (rule range_len_bounds(1) [OF assms])
    finally have "int (k * nat B) < int n" by (simp only: of_nat_mult nB)
    then show ?thesis by (simp only: of_nat_less_iff)
  qed
qed

lemma decodes_iff: "decodes W image_size f \<longleftrightarrow>
    (\<exists>img. read_image W (size_w image_size, size_h image_size) f = Inr img)"
  by (simp add: decodes_def split: sum.splits)

lemma sample_generator_complete:
  assumes B: "0 < B" and dec: "\<forall>f \<in> set samples. decodes W image_size f"
  shows "\<exists>bs. sample_generator W samples image_size B = (bs, None)
           \<and> length bs = range_len 0 (int (length samples)) B"
proof -
  let ?sz = "(size_w image_size, size_h image_size)"
  let ?q = "range_len 0 (int (length samples)) B"
  let ?offs = "map (\<lambda>k. int k * B) [0..<?q]"
  let ?chunk = "\<lambda>k. take (nat B) (drop (k * nat B) samples)"
  have "\<forall>off \<in> set ?offs. \<exists>b. load_batch W ?sz (py_slice samples off (off + B)) [] [] = Inr b"
  proof
    fix off assume "off \<in> set ?offs"
    then obtain k where off: "off = int k * B" by auto
    have "set (?chunk k) \<subseteq> set samples"
      by (meson set_take_subset set_drop_subset subset_trans)
    with dec have "\<forall>g \<in> set (?chunk k). \<exists>img. read_image W ?sz g = Inr img"
      by (auto simp: decodes_iff)
    from load_batch_succeeds [OF this, of "[]" "[]"]
    show "\<exists>b. load_batch W ?sz (py_slice samples off (off + B)) [] [] = Inr b"
      unfolding off py_slice_chunk [OF B] by blast
  qed
  from gen_loop_succeeds [OF this] obtain bs where
    gl: "gen_loop W samples ?sz B ?offs = (bs, None)" and len: "length bs = ?q"
    by auto
  then show ?thesis
    by (simp add: sample_generator_pos [OF B])
qed

lemma yielded_sizes:
  assumes gen: "sample_generator W samples image_size B = (bs, r)" and k: "k < length bs"
  shows "k < range_len 0 (int (length samples)) B"
    and "k * nat B < length samples"
    and "length (fst (bs ! k)) = min (nat B) (length samples - k * nat B)"
proof -
  from yielded_batch [OF gen k] obtain imgs where
    B: "0 < B" and kq: "k < range_len 0 (int (length samples)) B"
    and b: "bs ! k = (imgs, map basename (take (nat B) (drop (k * nat B) samples)))"
    and dec: "map (read_image W (size_w image_size, size_h image_size))
                (take (nat B) (drop (k * nat B) samples)) = map Inr imgs"
    by blast
  show "k < range_len 0 (int (length samples)) B" by (rule kq)
  show "k * nat B < length samples" by (rule range_len_nat(1) [OF B kq])
  from dec have "length imgs = length (take (nat B) (drop (k * nat B) samples))"
    by (metis length_map)
  with b show "length (fst (bs ! k)) = min (nat B) (length samples - k * nat B)"
    by (simp add: min.commute)
qed

lemma yielded_count:
  assumes gen: "sample_generator W samples image_size B = (bs, r)"
  shows "length bs \<le> range_len 0 (int (length samples)) B"
proof (rule ccontr)
  assume "\<not> length bs \<le> range_len 0 (int (length samples)) B"
  then have "range_len 0 (int (length samples)) B < length bs" by simp
  from yielded_sizes(1) [OF gen this] show False by simp
qed

text \<open>
  Claim C1, for a positive batch size \<open>B\<close> and a sample list of length \<open>N\<close>. When every
  file of the list decodes, the generator ends without an exception after yielding
  exactly \<open>\<lceil>N / B\<rceil>\<close> batches; the sizes of the batches add up to \<open>N\<close>, every batch
  but the last has exactly \<open>B\<close> images, no batch is empty, and the empty list gives no
  batch. Whatever the files are, the generator never yields more than \<open>\<lceil>N / B\<rceil>\<close>
  batches, never an empty one, and each yielded batch other than the \<open>\<lceil>N / B\<rceil>\<close>-th
  has exactly \<open>B\<close> images. (What a file that does not decode does to the run is
  claim C7.)
\<close>

theorem sample_generator_batch_count:
  assumes B: "0 < B"
  shows "((\<forall>f \<in> set samples. decodes W image_size f) \<longrightarrow>
           (\<exists>bs. sample_generator W samples image_size B = (bs, None)
              \<and> int (length bs) = \<lceil>real (length samples) / real_of_int B\<rceil>
              \<and> sum_list (map (\<lambda>b. length (fst b)) bs) = length samples
              \<and> (\<forall>k. Suc k < length bs \<longrightarrow> length (fst (bs ! k)) = nat B)
              \<and> (\<forall>b \<in> set bs. fst b \<noteq> [])
              \<and> (samples = [] \<longrightarrow> bs = [])))
       \<and> (\<forall>bs ending. sample_generator W samples image_size B = (bs, ending) \<longrightarrow>
             int (length bs) \<le> \<lceil>real (length samples) / real_of_int B\<rceil>
             \<and> (\<forall>k. k < length bs \<and> int (Suc k) < \<lceil>real (length samples) / real_of_int B\<rceil>
                    \<longrightarrow> length (fst (bs ! k)) = nat B)
             \<and> (\<forall>b \<in> set bs. fst b \<noteq> []))"
proof -
  let ?q = "range_len 0 (int (length samples)) B"
  let ?chunk = "\<lambda>k. take (nat B) (drop (k * nat B) samples)"
  have q: "int ?q = \<lceil>real (length samples) / real_of_int B\<rceil>"
    by (rule range_len_ceiling [OF B])
  have full: "length (fst (bs ! k)) = nat B"
    if "sample_generator W samples image_size B = (bs, r)" "k < length bs" "Suc k < ?q"
    for bs r k
  proof -
    from range_len_nat(1) [OF B that(3)] have "nat B + k * nat B < length samples" by simp
    then show ?thesis using yielded_sizes(3) [OF that(1,2)] by simp
  qed
  have nonempty: "fst b \<noteq> []"
    if "sample_generator W samples image_size B = (bs, r)" "b \<in> set bs" for bs r b
  proof -
    from that(2) obtain k where k: "k < length bs" "b = bs ! k"
      by (auto simp: in_set_conv_nth)
    from yielded_sizes(2,3) [OF that(1) k(1)] B have "0 < length (fst (bs ! k))" by simp
    with k(2) show ?thesis by auto
  qed
  have complete: "\<exists>bs. sample_generator W samples image_size B = (bs, None)
              \<and> int (length bs) = \<lceil>real (length samples) / real_of_int B\<rceil>
              \<and> sum_list (map (\<lambda>b. length (fst b)) bs) = length samples
              \<and> (\<forall>k. Suc k < length bs \<longrightarrow> length (fst (bs ! k)) = nat B)
              \<and> (\<forall>b \<in> set bs. fst b \<noteq> [])
              \<and> (samples = [] \<longrightarrow> bs = [])"
    if dec: "\<forall>f \<in> set samples. decodes W image_size f"
  proof -
    from sample_generator_complete [OF B dec] obtain bs where
      gen: "sample_generator W samples image_size B = (bs, None)" and len: "length bs = ?q"
      by blast
    have "map (\<lambda>b. length (fst b)) bs = map (\<lambda>k. length (?chunk k)) [0..<?q]"
      by (rule nth_equalityI) (simp_all add: len yielded_sizes(3) [OF gen])
    then have "sum_list (map (\<lambda>b. length (fst b)) bs)
                 = length (concat (map ?chunk [0..<?q]))"
      by (simp add: length_concat comp_def)
    also have "\<dots> = length samples"
      using range_len_nat(2) [OF B, of "length samples"] by (simp add: chunks_concat)
    finally have total: "sum_list (map (\<lambda>b. length (fst b)) bs) = length samples" .
    have "length (fst (bs ! k)) = nat B" if "Suc k < length bs" for k
      using full [OF gen, of k] that len by simp
    moreover have "bs = []" if "samples = []"
      using that len by (simp add: range_len_def)
    moreover have "int (length bs) = \<lceil>real (length samples) / real_of_int B\<rceil>"
      using len q by simp
    moreover have "\<forall>b \<in> set bs. fst b \<noteq> []"
      using nonempty [OF gen] by blast
    ultimately show ?thesis using gen total by blast
  qed
  have partial: "int (length bs) \<le> \<lceil>real (length samples) / real_of_int B\<rceil>
             \<and> (\<forall>k. k < length bs \<and> int (Suc k) < \<lceil>real (length samples) / real_of_int B\<rceil>
                    \<longrightarrow> length (fst (bs ! k)) = nat B)
             \<and> (\<forall>b \<in> set bs. fst b \<noteq> [])"
    if gen: "sample_generator W samples image_size B = (bs, ending)" for bs ending
  proof (intro conjI allI impI ballI)
    show "int (length bs) \<le> \<lceil>real (length samples) / real_of_int B\<rceil>"
      using yielded_count [OF gen] q by linarith
    show "fst b \<noteq> []" if "b \<in> set bs" for b
      by (rule nonempty [OF gen that])
    show "length (fst (bs ! k)) = nat B"
      if "k < length bs \<and> int (Suc k) < \<lceil>real (length samples) / real_of_int B\<rceil>" for k
    proof -
      from that q have "Suc k < ?q" by linarith
      with that show ?thesis using full [OF gen] by simp
    qed
  qed
  from complete partial show ?thesis by blast
qed

theorem sample_generator_batch_count_witness:
  "(0::int) < 2
   \<and> decodes demo_env demo_size ''in/a.jpg'' \<and> decodes demo_env demo_size ''in/b.jpg''
   \<and> decodes demo_env demo_size ''in/c.jpg''
   \<and> (\<exists>bs. sample_generator demo_env demo_samples demo_size 2 = (bs, None)
         \<and> int (length bs) = \<lceil>real (length demo_samples) / real_of_int 2\<rceil>
         \<and> sum_list (map (\<lambda>b. length (fst b)) bs) = length demo_samples
         \<and> (\<forall>k. Suc k < length bs \<longrightarrow> length (fst (bs ! k)) = nat 2)
         \<and> (\<forall>b \<in> set bs. fst b \<noteq> [])
         \<and> (demo_samples = [] \<longrightarrow> bs = []))
   \<and> sample_generator demo_env [''in/a.jpg'', ''notes.txt'', ''in/b.jpg''] demo_size 2
       = ([], Some CvError)
   \<and> int (length ([] :: nat batch list))
       \<le> \<lceil>real (length [''in/a.jpg'', ''notes.txt'', ''in/b.jpg'']) / real_of_int 2\<rceil>"
proof -
  have b: "(0::int) < 2" by simp
  have d: "decodes demo_env demo_size ''in/a.jpg''" "decodes demo_env demo_size ''in/b.jpg''"
    "decodes demo_env demo_size ''in/c.jpg''"
    by (simp_all add: decodes_def read_image_def cv2_resize_def demo_env_def demo_size_def)
  then have h: "\<forall>f \<in> set demo_samples. decodes demo_env demo_size f"
    by (simp add: demo_samples_def)
  have g: "sample_generator demo_env [''in/a.jpg'', ''notes.txt'', ''in/b.jpg''] demo_size 2
             = ([], Some CvError)"
    by (simp add: sample_generator_def py_range_def range_len_def py_slice_def adjust_index_def
        read_image_def cv2_resize_def demo_env_def demo_size_def upt_rec)
  note inst = sample_generator_batch_count
    [OF b, where W = demo_env and image_size = demo_size and samples = demo_samples]
  note inst' = sample_generator_batch_count
    [OF b, where W = demo_env and image_size = demo_size
       and samples = "[''in/a.jpg'', ''notes.txt'', ''in/b.jpg'']"]
  from inst h have
    "\<exists>bs. sample_generator demo_env demo_samples demo_size 2 = (bs, None)
         \<and> int (length bs) = \<lceil>real (length demo_samples) / real_of_int 2\<rceil>
         \<and> sum_list (map (\<lambda>b. length (fst b)) bs) = length demo_samples
         \<and> (\<forall>k. Suc k < length bs \<longrightarrow> length (fst (bs ! k)) = nat 2)
         \<and> (\<forall>b \<in> set bs. fst b \<noteq> [])
         \<and> (demo_samples = [] \<longrightarrow> bs = [])"
    by blast
  moreover from inst' g have
    "int (length ([] :: nat batch list))
       \<le> \<lceil>real (length [''in/a.jpg'', ''notes.txt'', ''in/b.jpg'']) / real_of_int 2\<rceil>"
    by blast
  ultimately show ?thesis using b d g by blast
qed

text \<open>
  Claim C10. The positive batch size is needed: with batch size 0 the generator raises
  \<open>ValueError\<close> (the zero step of \<open>range\<close>) when it is first advanced, before any
  batch; with a negative batch size it yields no batch at all and ends normally,
  whatever the sample list holds.
\<close>

theorem nonpositive_batch_size:
  "sample_generator W samples image_size 0 = ([], Some ValueError)
   \<and> (B < 0 \<longrightarrow> sample_generator W samples image_size B = ([], None))"
  by (simp add: sample_generator_def py_range_def range_len_def)

theorem nonpositive_batch_size_witness:
  "(- 1 :: int) < 0 \<and> [''in/a.jpg'', ''in/b.jpg''] \<noteq> []
   \<and> sample_generator demo_env [''in/a.jpg'', ''in/b.jpg''] demo_size 0 = ([], Some ValueError)
   \<and> sample_generator demo_env [''in/a.jpg'', ''in/b.jpg''] demo_size (- 1) = ([], None)"
  using nonpositive_batch_size [of demo_env "[''in/a.jpg'', ''in/b.jpg'']" demo_size "- 1"]
  by simp

subsection \<open>Yielded batches\<close>

lemma chunk_nth:
  assumes "j < length (take b (drop (k * b) xs))"
  shows "k * b + j < length xs" and "take b (drop (k * b) xs) ! j = xs ! (k * b + j)"
proof -
  from assms have j: "j < b" "j < length xs - k * b" by simp_all
  then show "k * b + j < length xs" by simp
  with j show "take b (drop (k * b) xs) ! j = xs ! (k * b + j)" by simp
qed

lemma yielded_batch_nth:
  assumes gen: "sample_generator W samples image_size B = (bs, ending)"
    and k: "k < length bs"
  shows "length (snd (bs ! k)) = length (fst (bs ! k))"
    and "j < length (fst (bs ! k)) \<Longrightarrow> k * nat B + j < length samples"
    and "j < length (fst (bs ! k)) \<Longrightarrow> snd (bs ! k) ! j = basename (samples ! (k * nat B + j))"
    and "j < length (fst (bs ! k)) \<Longrightarrow>
           read_image W (size_w image_size, size_h image_size) (samples ! (k * nat B + j))
             = Inr (fst (bs ! k) ! j)"
    and "length (fst (bs ! k)) = length (take (nat B) (drop (k * nat B) samples))"
proof -
  let ?sz = "(size_w image_size, size_h image_size)"
  let ?chunk = "take (nat B) (drop (k * nat B) samples)"
  from yielded_batch [OF gen k] obtain imgs where
    b: "bs ! k = (imgs, map basename ?chunk)"
    and dec: "map (read_image W ?sz) ?chunk = map Inr imgs"
    by blast
  from dec have len: "length imgs = length ?chunk" by (metis length_map)
  show "length (snd (bs ! k)) = length (fst (bs ! k))" using b len by simp
  show "length (fst (bs ! k)) = length ?chunk" using b len by simp
  {
    assume "j < length (fst (bs ! k))"
    with b len have j: "j < length ?chunk" by simp
    note nth = chunk_nth [OF j]
    show "k * nat B + j < length samples" by (rule nth(1))
    show "snd (bs ! k) ! j = basename (samples ! (k * nat B + j))"
      using b j nth(2) by simp
    have "map (read_image W ?sz) ?chunk ! j = map Inr imgs ! j" using dec by simp
    then have "read_image W ?sz (?chunk ! j) = Inr (imgs ! j)"
      using j len by simp
    then show "read_image W ?sz (samples ! (k * nat B + j)) = Inr (fst (bs ! k) ! j)"
      using b nth(2) by simp
  }
qed

text \<open>
  Claim C4. In every batch the generator yields, the list of names is as long as the
  list of images, and position \<open>j\<close> of batch \<open>k\<close> holds the image decoded from the
  sample at global index \<open>k * B + j\<close> together with the base name of that sample: same
  length, same order. Hence for every index \<open>i\<close> of the sample list whose batch was
  yielded, name \<open>i mod B\<close> of batch \<open>i div B\<close> is the base name of sample \<open>i\<close>.
\<close>

theorem names_follow_images:
  assumes gen: "sample_generator W samples image_size B = (bs, ending)"
  shows "(\<forall>k j. k < length bs \<longrightarrow>
            length (snd (bs ! k)) = length (fst (bs ! k)) \<and>
            (j < length (fst (bs ! k)) \<longrightarrow>
               k * nat B + j < length samples \<and>
               snd (bs ! k) ! j = basename (samples ! (k * nat B + j)) \<and>
               read_image W (size_w image_size, size_h image_size) (samples ! (k * nat B + j))
                 = Inr (fst (bs ! k) ! j)))
       \<and> (\<forall>i. i < length samples \<and> i div nat B < length bs \<longrightarrow>
            i mod nat B < length (snd (bs ! (i div nat B))) \<and>
            snd (bs ! (i div nat B)) ! (i mod nat B) = basename (samples ! i))"
proof (intro conjI allI impI)
  fix k j assume k: "k < length bs"
  show "length (snd (bs ! k)) = length (fst (bs ! k))"
    by (rule yielded_batch_nth(1) [OF gen k])
  assume j: "j < length (fst (bs ! k))"
  show "k * nat B + j < length samples" by (rule yielded_batch_nth(2) [OF gen k j])
  show "snd (bs ! k) ! j = basename (samples ! (k * nat B + j))"
    by (rule yielded_batch_nth(3) [OF gen k j])
  show "read_image W (size_w image_size, size_h image_size) (samples ! (k * nat B + j))
          = Inr (fst (bs ! k) ! j)"
    by (rule yielded_batch_nth(4) [OF gen k j])
next
  fix i assume i: "i < length samples \<and> i div nat B < length bs"
  let ?k = "i div nat B" and ?j = "i mod nat B"
  from i have k: "?k < length bs" by simp
  from yielded_batch [OF gen k] have B: "0 < B" by simp
  have split: "?k * nat B + ?j = i" by simp
  have "?j < nat B" using B by simp
  moreover have "?j < length samples - ?k * nat B" using i split by linarith
  ultimately have "?j < length (take (nat B) (drop (?k * nat B) samples))" by simp
  then have j: "?j < length (fst (bs ! ?k))"
    by (simp only: yielded_batch_nth(5) [OF gen k])
  then show "?j < length (snd (bs ! ?k))"
    by (simp only: yielded_batch_nth(1) [OF gen k])
  from yielded_batch_nth(3) [OF gen k j] show "snd (bs ! ?k) ! ?j = basename (samples ! i)"
    by (simp only: split)
qed


text \<open>
  Claim C5. Every image of every yielded batch is the result of \<open>cv2.resize\<close> at the
  configured \<open>(width, height)\<close>, converted to \<open>float32\<close>, whatever the size of the
  source image: its element type is \<open>Float32\<close>, and, \<open>cv2.resize\<close> returning an array
  of the size it is asked for, it has the configured number of rows (height) and of
  columns (width), with the channels of the resized array.
\<close>

theorem images_resized_to_target:
  assumes gen: "sample_generator W samples image_size B = (bs, ending)"
    and b: "b \<in> set bs" and img: "img \<in> set (fst b)"
  shows "(\<exists>f src out. f \<in> set samples \<and> imread W f = Some src
            \<and> resize W src (size_w image_size, size_h image_size) = Inr out
            \<and> img = astype_float32 out
            \<and> rows img = rows out \<and> cols img = cols out \<and> channels img = channels out)
       \<and> elem_type img = Float32
       \<and> (resize_gives_size W
            \<longrightarrow> rows img = nat (size_h image_size) \<and> cols img = nat (size_w image_size))"
proof -
  let ?sz = "(size_w image_size, size_h image_size)"
  from b obtain k where k: "k < length bs" "b = bs ! k" by (auto simp: in_set_conv_nth)
  from img k obtain j where j: "j < length (fst (bs ! k))" "img = fst (bs ! k) ! j"
    by (auto simp: in_set_conv_nth)
  let ?f = "samples ! (k * nat B + j)"
  have f: "?f \<in> set samples"
    using yielded_batch_nth(2) [OF gen k(1) j(1)] by simp
  have "read_image W ?sz ?f = Inr img"
    using yielded_batch_nth(4) [OF gen k(1) j(1)] j(2) by simp
  then obtain src out where src: "imread W ?f = Some src"
    and out: "resize W src ?sz = Inr out" and eq: "img = astype_float32 out"
    by (auto simp: read_image_def cv2_resize_def split: option.splits sum.splits)
  have shape: "rows img = rows out" "cols img = cols out" "channels img = channels out"
    and ty: "elem_type img = Float32"
    using eq by (simp_all add: astype_float32_def)
  have "rows img = nat (size_h image_size) \<and> cols img = nat (size_w image_size)"
    if "resize_gives_size W"
  proof -
    from that out have "rows out = nat (size_h image_size) \<and> cols out = nat (size_w image_size)"
      unfolding resize_gives_size_def by blast
    with shape show ?thesis by simp
  qed
  with f src out eq shape ty show ?thesis by blast
qed

lemma generator_stops_at_failure:
  assumes B: "0 < B" and i: "i < length samples"
    and fail: "read_image W (size_w image_size, size_h image_size) (samples ! i) = Inl e"
    and before: "\<forall>j. j < i \<longrightarrow> decodes W image_size (samples ! j)"
  shows "\<exists>bs. sample_generator W samples image_size B = (bs, Some e)
           \<and> length bs = i div nat B"
proof -
  let ?sz = "(size_w image_size, size_h image_size)"
  let ?b = "nat B"
  let ?q = "range_len 0 (int (length samples)) B"
  let ?off = "\<lambda>k. int k * B"
  let ?chunk = "\<lambda>k. take ?b (drop (k * ?b) samples)"
  let ?k = "i div ?b" and ?j = "i mod ?b"
  have b0: "0 < ?b" using B by simp
  have split: "?k * ?b + ?j = i" by simp
  have kle: "?k * ?b \<le> i" by simp
  have kq: "?k < ?q"
  proof (rule ccontr)
    assume "\<not> ?k < ?q"
    then have "?q * ?b \<le> ?k * ?b" by simp
    also have "\<dots> \<le> i" using split by linarith
    finally show False using range_len_nat(2) [OF B, of "length samples"] i by simp
  qed
  have "[0..<?k + (?q - ?k)] = [0..<?k] @ [?k..<?k + (?q - ?k)]"
    by (rule upt_add_eq_append) simp
  then have "[0..<?q] = [0..<?k] @ [?k..<?q]" using kq by simp
  also have "[?k..<?q] = ?k # [Suc ?k..<?q]" using kq by (rule upt_conv_Cons)
  finally have offs: "map ?off [0..<?q] = map ?off [0..<?k] @ ?off ?k # map ?off [Suc ?k..<?q]"
    by simp
  have ok: "\<exists>img. read_image W ?sz (samples ! m) = Inr img" if "m < i" for m
    using before that by (simp add: decodes_iff)
  have pre: "\<forall>off \<in> set (map ?off [0..<?k]).
               \<exists>b. load_batch W ?sz (py_slice samples off (off + B)) [] [] = Inr b"
  proof
    fix off assume "off \<in> set (map ?off [0..<?k])"
    then obtain k where k: "k < ?k" "off = int k * B" by auto
    have "\<forall>g \<in> set (?chunk k). \<exists>img. read_image W ?sz g = Inr img"
    proof
      fix g assume "g \<in> set (?chunk k)"
      then obtain j where j: "j < length (?chunk k)" "g = ?chunk k ! j"
        by (auto simp: in_set_conv_nth)
      from j(1) have "j < ?b" by simp
      moreover from k(1) have "Suc k * ?b \<le> ?k * ?b" by (simp only: mult_le_mono1 Suc_leI)
      then have "k * ?b + ?b \<le> ?k * ?b" by simp
      ultimately have "k * ?b + j < i" using kle by linarith
      with ok chunk_nth(2) [OF j(1)] j(2)
      show "\<exists>img. read_image W ?sz g = Inr img" by simp
    qed
    from load_batch_succeeds [OF this, of "[]" "[]"]
    show "\<exists>b. load_batch W ?sz (py_slice samples off (off + B)) [] [] = Inr b"
      unfolding k(2) py_slice_chunk [OF B] by blast
  qed
  have j: "?j < length (?chunk ?k)"
  proof -
    have "?j < ?b" using b0 by simp
    moreover have "?j < length samples - ?k * ?b" using i split by linarith
    ultimately show ?thesis by simp
  qed
  have at: "?chunk ?k ! ?j = samples ! i"
    using chunk_nth(2) [OF j] by (simp only: split)
  have "\<forall>g \<in> set (take ?j (?chunk ?k)). \<exists>img. read_image W ?sz g = Inr img"
  proof
    fix g assume "g \<in> set (take ?j (?chunk ?k))"
    then obtain m where m: "m < ?j" "g = ?chunk ?k ! m"
      by (auto simp: in_set_conv_nth)
    with j have m': "m < length (?chunk ?k)" by linarith
    from m(1) have "?k * ?b + m < i" using split by linarith
    with ok chunk_nth(2) [OF m'] m(2)
    show "\<exists>img. read_image W ?sz g = Inr img" by simp
  qed
  from load_batch_fails [OF this, of "samples ! i" e "drop (Suc ?j) (?chunk ?k)" "[]" "[]"] fail
  have "load_batch W ?sz (take ?j (?chunk ?k) @ samples ! i # drop (Suc ?j) (?chunk ?k)) [] []
          = Inl e" by simp
  moreover have "take ?j (?chunk ?k) @ samples ! i # drop (Suc ?j) (?chunk ?k) = ?chunk ?k"
    using id_take_nth_drop [OF j] at by simp
  ultimately have "load_batch W ?sz (py_slice samples (?off ?k) (?off ?k + B)) [] [] = Inl e"
    by (simp only: py_slice_chunk [OF B])
  from gen_loop_fails [OF pre this, of "map ?off [Suc ?k..<?q]"] obtain bs where
    "gen_loop W samples ?sz B (map ?off [0..<?q]) = (bs, Some e)" "length bs = ?k"
    unfolding offs by auto
  then show ?thesis by (simp add: sample_generator_pos [OF B])
qed


lemma demo_generator:
  "sample_generator demo_env demo_samples demo_size 2 = (demo_batches, None)"
  by (simp add: sample_generator_def py_range_def range_len_def py_slice_def adjust_index_def
      read_image_def cv2_resize_def astype_float32_def basename_def
      demo_env_def demo_samples_def demo_size_def demo_batches_def upt_rec)

theorem names_follow_images_witness:
  "sample_generator demo_env demo_samples demo_size 2 = (demo_batches, None)
   \<and> (1::nat) < length demo_batches
   \<and> length (snd (demo_batches ! 1)) = length (fst (demo_batches ! 1))
   \<and> (0::nat) < length (fst (demo_batches ! 1))
   \<and> snd (demo_batches ! 1) ! 0 = basename (demo_samples ! (1 * nat 2 + 0))
   \<and> read_image demo_env (size_w demo_size, size_h demo_size) (demo_samples ! (1 * nat 2 + 0))
       = Inr (fst (demo_batches ! 1) ! 0)
   \<and> (2::nat) < length demo_samples \<and> 2 div nat 2 < length demo_batches
   \<and> snd (demo_batches ! (2 div nat 2)) ! (2 mod nat 2) = basename (demo_samples ! 2)"
proof -
  have k: "(1::nat) < length demo_batches" by (simp add: demo_batches_def)
  have j: "(0::nat) < length (fst (demo_batches ! 1))" by (simp add: demo_batches_def)
  have i: "(2::nat) < length demo_samples \<and> 2 div nat 2 < length demo_batches"
    by (simp add: demo_samples_def demo_batches_def)
  note inst = names_follow_images [OF demo_generator]
  from inst k j have "length (snd (demo_batches ! 1)) = length (fst (demo_batches ! 1))"
    "snd (demo_batches ! 1) ! 0 = basename (demo_samples ! (1 * nat 2 + 0))"
    "read_image demo_env (size_w demo_size, size_h demo_size) (demo_samples ! (1 * nat 2 + 0))
       = Inr (fst (demo_batches ! 1) ! 0)"
    by blast+
  moreover from inst i
  have "snd (demo_batches ! (2 div nat 2)) ! (2 mod nat 2) = basename (demo_samples ! 2)"
    by blast
  ultimately show ?thesis using demo_generator k j i by blast
qed

theorem images_resized_to_target_witness:
  "sample_generator demo_env demo_samples demo_size 2 = (demo_batches, None)
   \<and> demo_batches ! 0 \<in> set demo_batches
   \<and> fst (demo_batches ! 0) ! 1 \<in> set (fst (demo_batches ! 0))
   \<and> resize_gives_size demo_env
   \<and> elem_type (fst (demo_batches ! 0) ! 1) = Float32
   \<and> rows (fst (demo_batches ! 0) ! 1) = nat (size_h demo_size)
   \<and> cols (fst (demo_batches ! 0) ! 1) = nat (size_w demo_size)"
proof -
  have b: "demo_batches ! 0 \<in> set demo_batches" by (simp add: demo_batches_def)
  have img: "fst (demo_batches ! 0) ! 1 \<in> set (fst (demo_batches ! 0))"
    by (simp add: demo_batches_def)
  have c: "resize_gives_size demo_env"
    by (auto simp: resize_gives_size_def demo_env_def split: if_splits)
  from images_resized_to_target [OF demo_generator b img] c b img demo_generator
  show ?thesis by blast
qed

subsection \<open>The loop over the batches\<close>

lemma py_index_nat: "i < length xs \<Longrightarrow> py_index xs (int i) = Inr (xs ! i)"
  by (simp add: py_index_def)

lemma saved_append: "saved (xs @ ys) = saved xs @ saved ys"
  by (induction xs rule: saved.induct) simp_all

lemma saved_NpSave: "saved (map (\<lambda>i. NpSave (p i) (q i)) js) = map (\<lambda>i. (p i, q i)) js"
  by (induction js) simp_all

lemma dump_loop_ok:
  assumes "\<forall>i \<in> set js. i < length boxes"
    and "\<forall>n box. np_save W (dir @ ''/'' @ n @ ''.npy'') box = None"
  shows "dump_loop W dir names boxes js
           = (map (\<lambda>i. NpSave (dir @ ''/'' @ names ! i @ ''.npy'') (boxes ! i)) js, None)"
  using assms by (induction js) (simp_all add: py_index_nat)

lemma process_batch_plain:
  assumes "\<not> (annotate a \<and> dump_prediction a)"
  shows "process_batch W a b = ([SessRun (fst b)], None)"
  using assms by (cases b) (auto simp: process_batch_def)

lemma process_batch_dump:
  fixes W :: "('p, 'b) env"
  assumes "annotate a" and "dump_prediction a" and "length names \<le> length (sess_run W x)"
    and nosave: "\<forall>n box. np_save W (output_dir a @ ''/'' @ n @ ''.npy'') box = None"
  shows "process_batch W a (x, names)
           = (SessRun x # map (\<lambda>i. NpSave (output_dir a @ ''/'' @ names ! i @ ''.npy'')
                                      (sess_run W x ! i)) [0..<length names], None)"
proof -
  have "\<forall>i \<in> set [0..<length names]. i < length (sess_run W x)" using assms(3) by simp
  then have "dump_loop W (output_dir a) names (sess_run W x) [0..<length names]
               = (map (\<lambda>i. NpSave (output_dir a @ ''/'' @ names ! i @ ''.npy'')
                                (sess_run W x ! i)) [0..<length names], None)"
    using nosave by (rule dump_loop_ok)
  then show ?thesis using assms(1,2) by (simp add: process_batch_def)
qed

lemma consume_plain:
  assumes "\<not> (annotate a \<and> dump_prediction a)"
  shows "consume W a bs ending = (map (\<lambda>b. SessRun (fst b)) bs, ending)"
  using assms by (induction bs) (simp_all add: process_batch_plain)

lemma consume_dump:
  assumes "annotate a" and "dump_prediction a"
    and "\<forall>b \<in> set bs. length (snd b) \<le> length (sess_run W (fst b))"
    and nosave: "\<forall>n box. np_save W (output_dir a @ ''/'' @ n @ ''.npy'') box = None"
  shows "\<exists>effs. consume W a bs ending = (effs, ending) \<and>
           saved effs = concat (map (\<lambda>b. map (\<lambda>i. (output_dir a @ ''/'' @ snd b ! i @ ''.npy'',
                                                    sess_run W (fst b) ! i))
                                          [0..<length (snd b)]) bs)"
  using assms(3)
proof (induction bs)
  case Nil
  then show ?case by simp
next
  case (Cons b bs)
  obtain x names where b: "b = (x, names)" by (cases b)
  with Cons.prems have "length names \<le> length (sess_run W x)" by simp
  note pb = process_batch_dump [OF assms(1,2) this nosave]
  from Cons obtain effs where
    effs: "consume W a bs ending = (effs, ending)"
    "saved effs = concat (map (\<lambda>b. map (\<lambda>i. (output_dir a @ ''/'' @ snd b ! i @ ''.npy'',
                                            sess_run W (fst b) ! i))
                                  [0..<length (snd b)]) bs)"
    by auto
  show ?case
    using b pb effs by (simp add: saved_append saved_NpSave)
qed

lemma consume_raises: "snd (consume W a bs (Some e)) \<noteq> None"
proof (induction bs)
  case Nil
  show ?case by simp
next
  case (Cons b bs)
  obtain effs r where pb: "process_batch W a b = (effs, r)" by (cases "process_batch W a b")
  obtain effs' r' where c: "consume W a bs (Some e) = (effs', r')"
    by (cases "consume W a bs (Some e)")
  with Cons have "r' \<noteq> None" by simp
  with pb c show ?case by (cases r) auto
qed

subsection \<open>The driver\<close>

lemma resolve_checkpoint_stops:
  assumes "resolve_checkpoint W a = Inl (effs, r)"
  shows "(\<forall>eff \<in> set effs. \<not> model_work eff) \<and> saved effs = [] \<and> r \<noteq> Exit 0"
  using assms
  by (auto simp: resolve_checkpoint_def Let_def split: option.splits sum.splits if_splits)

lemma load_image_size_stops:
  assumes "load_image_size W a = Inl (effs, r)"
  shows "(\<forall>eff \<in> set effs. \<not> model_work eff) \<and> saved effs = [] \<and> r \<noteq> Exit 0"
  using assms
  by (auto simp: load_image_size_def split: option.splits sum.splits)


lemma resolve_files_eq:
  "resolve_files W a =
     (if annotate a then
        (if filter (path_exists W) (files a) = []
         then Inl ([Print [VStr ''[!] No files specified'']], Exit 1)
         else if path_exists W (output_dir a) then Inr (filter (path_exists W) (files a), [])
         else (case makedirs W (output_dir a) of
                 None \<Rightarrow> Inr (filter (path_exists W) (files a), [MakeDirs (output_dir a)])
               | Some e \<Rightarrow> Inl ([], Uncaught e)))
      else Inr ([], []))"
  by (auto simp: resolve_files_def Let_def)

lemma main_stops_before_model:
  assumes "annotate a" and "filter (path_exists W) (files a) = []"
  shows "(\<forall>eff \<in> set (fst (main W a)). \<not> model_work eff) \<and> snd (main W a) \<noteq> Exit 0"
proof (cases "resolve_checkpoint W a")
  case (Inl r)
  then show ?thesis
    using resolve_checkpoint_stops [of W a "fst r" "snd r"] by (simp add: main_def)
next
  case ck: (Inr p)
  show ?thesis
  proof (cases "load_image_size W a")
    case (Inl r)
    then show ?thesis
      using ck load_image_size_stops [of W a "fst r" "snd r"]
      by (simp add: main_def split: prod.splits)
  next
    case (Inr image_size)
    then show ?thesis
      using ck assms by (simp add: main_def resolve_files_eq split: prod.splits)
  qed
qed

text \<open>
  Claim C8. With \<open>--annotate\<close> true and no positional file that exists on disk, a run
  whose checkpoint and training data were found prints \<open>[!] No files specified\<close>, does
  nothing else and returns 1; and whatever the earlier steps did, such a run never
  reaches the network and never ends with 0.
\<close>

theorem no_files_specified:
  assumes "annotate a" and "filter (path_exists W) (files a) = []"
  shows "(resolve_checkpoint W a = Inr (ck, mg) \<and> load_image_size W a = Inr image_size
            \<longrightarrow> main W a = ([Print [VStr ''[!] No files specified'']], Exit 1))
       \<and> (\<forall>eff \<in> set (fst (main W a)). \<not> model_work eff)
       \<and> snd (main W a) \<noteq> Exit 0"
  using assms main_stops_before_model [OF assms]
  by (simp add: main_def resolve_files_eq)

theorem no_files_specified_witness:
  "annotate (demo_args\<lparr>files := [''gone.jpg'']\<rparr>)
   \<and> filter (path_exists demo_env) (files (demo_args\<lparr>files := [''gone.jpg'']\<rparr>)) = []
   \<and> resolve_checkpoint demo_env (demo_args\<lparr>files := [''gone.jpg'']\<rparr>)
       = Inr (''test/ckpt-3'', ''test/ckpt-3.meta'')
   \<and> load_image_size demo_env (demo_args\<lparr>files := [''gone.jpg'']\<rparr>) = Inr demo_size
   \<and> main demo_env (demo_args\<lparr>files := [''gone.jpg'']\<rparr>)
       = ([Print [VStr ''[!] No files specified'']], Exit 1)"
proof -
  let ?a = "demo_args\<lparr>files := [''gone.jpg'']\<rparr>"
  have h1: "annotate ?a" by (simp add: demo_args_def)
  have h2: "filter (path_exists demo_env) (files ?a) = []"
    by (simp add: demo_args_def demo_env_def)
  have h3: "resolve_checkpoint demo_env ?a = Inr (''test/ckpt-3'', ''test/ckpt-3.meta'')"
    by (simp add: resolve_checkpoint_def demo_args_def demo_env_def py_index_def)
  have h4: "load_image_size demo_env ?a = Inr demo_size"
    by (simp add: load_image_size_def load_training_data_def subscript_def get_image_size_def
        demo_args_def demo_env_def demo_size_def)
  from no_files_specified [OF h1 h2, of "''test/ckpt-3''" "''test/ckpt-3.meta''" demo_size]
    h1 h2 h3 h4
  show ?thesis by blast
qed

lemma process_batch_files: "process_batch W (a\<lparr>files := fs\<rparr>) b = process_batch W a b"
  by (simp add: process_batch_def cong: prod.case_cong if_cong)

lemma consume_files: "consume W (a\<lparr>files := fs\<rparr>) bs ending = consume W a bs ending"
  by (induction bs) (simp_all add: process_batch_files)

lemma main_files:
  assumes "resolve_files W (a\<lparr>files := fs\<rparr>) = resolve_files W a"
  shows "main W (a\<lparr>files := fs\<rparr>) = main W a"
proof -
  have "resolve_checkpoint W (a\<lparr>files := fs\<rparr>) = resolve_checkpoint W a"
    by (simp add: resolve_checkpoint_def getattr_def cong: option.case_cong sum.case_cong)
  moreover have "load_image_size W (a\<lparr>files := fs\<rparr>) = load_image_size W a"
    by (simp add: load_image_size_def cong: sum.case_cong)
  moreover have "process_images W (a\<lparr>files := fs\<rparr>) c m s xs = process_images W a c m s xs"
    for c m s xs
    by (simp add: process_images_def consume_files cong: if_cong prod.case_cong)
  moreover have "(print_parameters (a\<lparr>files := fs\<rparr>) c m s xs :: ('a, 'b) effect list)
                   = print_parameters a c m s xs" for c m s xs
    by (simp add: print_parameters_def)
  ultimately show ?thesis using assms
    by (simp add: main_def cong: sum.case_cong prod.case_cong)
qed

text \<open>
  Claim C9. With \<open>--annotate\<close> true, the positional paths that do not exist are dropped
  silently: the run is the very run of the command line without them, the processed
  list is the list of the existing paths in order, and the only error about the files
  is the one for an empty list (what is left to fail in these lines is the creation of
  the output directory, which does not depend on the files). With \<open>--annotate\<close> false
  the positional files are not looked at: the run is the run without any, and the
  processed list is empty.
\<close>

theorem missing_files_are_dropped:
  "(annotate a \<longrightarrow>
      main W a = main W (a\<lparr>files := filter (path_exists W) (files a)\<rparr>)
      \<and> resolve_files W a =
          (if filter (path_exists W) (files a) = []
           then Inl ([Print [VStr ''[!] No files specified'']], Exit 1)
           else if path_exists W (output_dir a)
           then Inr (filter (path_exists W) (files a), [])
           else (case makedirs W (output_dir a) of
                   None \<Rightarrow> Inr (filter (path_exists W) (files a), [MakeDirs (output_dir a)])
                 | Some e \<Rightarrow> Inl ([], Uncaught e))))
   \<and> (\<not> annotate a \<longrightarrow>
      main W a = main W (a\<lparr>files := []\<rparr>) \<and> resolve_files W a = Inr ([], []))"
proof -
  have "resolve_files W (a\<lparr>files := filter (path_exists W) (files a)\<rparr>) = resolve_files W a"
    by (simp add: resolve_files_eq cong: option.case_cong)
  from main_files [OF this]
  have 1: "main W a = main W (a\<lparr>files := filter (path_exists W) (files a)\<rparr>)" by simp
  have "resolve_files W (a\<lparr>files := []\<rparr>) = resolve_files W a" if "\<not> annotate a"
    using that by (simp add: resolve_files_eq cong: option.case_cong)
  from main_files [OF this]
  have 2: "main W a = main W (a\<lparr>files := []\<rparr>)" if "\<not> annotate a"
    using that by simp
  from 1 2 show ?thesis by (simp add: resolve_files_eq)
qed

text \<open>
  The whole run on the concrete environment: four positional files of which one does
  not exist, batch size 2, both flags set.
\<close>

lemma demo_main:
  "main demo_env demo_args =
     ([MakeDirs ''out'',
       Print [VStr ''[i] Project name:      '', VStr ''test''],
       Print [VStr ''[i] Network checkpoint:'', VStr ''test/ckpt-3''],
       Print [VStr ''[i] Metagraph file:    '', VStr ''test/ckpt-3.meta''],
       Print [VStr ''[i] Training data:     '', VStr ''data.pkl''],
       Print [VStr ''[i] Image size:        '', VSize demo_size],
       Print [VStr ''[i] Number of files:   '', VInt 3],
       Print [VStr ''[i] Batch size:        '', VInt 2],
       Print [VStr ''[i] Creating the model...''],
       BuildFromMetagraph ''test/ckpt-3.meta'' ''test/ckpt-3'',
       SessRun (fst (demo_batches ! 0)),
       NpSave ''out/a.jpg.npy'' 10, NpSave ''out/b.jpg.npy'' 20,
       SessRun (fst (demo_batches ! 1)),
       NpSave ''out/c.jpg.npy'' 30,
       Print [VStr ''[i] All done.'']],
      Exit 0)"
  by (simp add: main_def resolve_checkpoint_def load_image_size_def load_training_data_def
      subscript_def get_image_size_def resolve_files_def print_parameters_def
      process_images_def process_batch_def py_index_def
      sample_generator_def py_range_def range_len_def py_slice_def adjust_index_def
      read_image_def cv2_resize_def astype_float32_def basename_def
      demo_env_def demo_args_def demo_size_def demo_batches_def upt_rec)


theorem missing_files_are_dropped_witness:
  "annotate demo_args
   \<and> filter (path_exists demo_env) (files demo_args) = demo_samples
   \<and> main demo_env demo_args = main demo_env (demo_args\<lparr>files := demo_samples\<rparr>)
   \<and> resolve_files demo_env demo_args = Inr (demo_samples, [MakeDirs ''out''])
   \<and> \<not> annotate (demo_args\<lparr>annotate := False\<rparr>)
   \<and> main demo_env (demo_args\<lparr>annotate := False\<rparr>)
       = main demo_env (demo_args\<lparr>annotate := False, files := []\<rparr>)
   \<and> resolve_files demo_env (demo_args\<lparr>annotate := False\<rparr>) = Inr ([], [])"
proof -
  have a: "annotate demo_args" by (simp add: demo_args_def)
  have f: "filter (path_exists demo_env) (files demo_args) = demo_samples"
    by (simp add: demo_args_def demo_env_def demo_samples_def)
  have d: "\<not> path_exists demo_env (output_dir demo_args)"
    "makedirs demo_env (output_dir demo_args) = None"
    by (simp_all add: demo_args_def demo_env_def)
  have n: "demo_samples \<noteq> []" by (simp add: demo_samples_def)
  have b: "\<not> annotate (demo_args\<lparr>annotate := False\<rparr>)" by simp
  from missing_files_are_dropped [of demo_args demo_env] a f d n
  have "main demo_env demo_args = main demo_env (demo_args\<lparr>files := demo_samples\<rparr>)"
    and "resolve_files demo_env demo_args = Inr (demo_samples, [MakeDirs ''out''])"
    by (simp_all add: demo_args_def)
  moreover from missing_files_are_dropped [of "demo_args\<lparr>annotate := False\<rparr>" demo_env] b
  have "main demo_env (demo_args\<lparr>annotate := False\<rparr>)
          = main demo_env (demo_args\<lparr>annotate := False, files := []\<rparr>)"
    and "resolve_files demo_env (demo_args\<lparr>annotate := False\<rparr>) = Inr ([], [])"
    by simp_all
  ultimately show ?thesis using a f b by blast
qed

lemma bad_checkpoint_index:
  assumes "get_checkpoint_state W (name a) = Some paths"
    and "py_index paths (checkpoint a) = Inl e"
  shows "main W a = ([], Uncaught AttributeError)"
  using assms by (simp add: main_def resolve_checkpoint_def getattr_def)

text \<open>
  Claim C2, evaluated where it fails. With three checkpoints and \<open>--checkpoint 5\<close>, the
  handler of \<open>IndexError\<close> evaluates \<open>args.checkpoint_file\<close>, an attribute the parser
  never defines (the option is \<open>checkpoint\<close>): \<open>AttributeError\<close> leaves \<open>main\<close> before
  anything is printed, and the process ends with status 1 and a traceback.
\<close>

theorem checkpoint_out_of_range_run:
  "get_checkpoint_state demo_env (name (demo_args\<lparr>checkpoint := 5\<rparr>))
     = Some [''test/ckpt-1'', ''test/ckpt-2'', ''test/ckpt-3'']
   \<and> main demo_env (demo_args\<lparr>checkpoint := 5\<rparr>) = ([], Uncaught AttributeError)
   \<and> script demo_env (demo_args\<lparr>checkpoint := 5\<rparr>) = ([], 1, True)"
  by (simp add: script_def main_def resolve_checkpoint_def getattr_def py_index_def
      demo_env_def demo_args_def)

lemma main_after_checkpoint:
  assumes "resolve_checkpoint W a = Inr (ck, mg)"
  shows "load_image_size W a = Inl r \<Longrightarrow> main W a = r"
  using assms by (simp add: main_def)

text \<open>
  Claim C3, as amended. After the checkpoint was resolved, a \<open>FileNotFoundError\<close>, an
  \<open>IOError\<close> or a \<open>KeyError\<close> raised while loading the training data (a missing file,
  an I/O error, a dictionary without the key \<open>preset\<close>) is caught: \<open>main\<close> prints the one
  line \<open>[!] Unable to load training data:\<close> with the message and returns 1, without a
  second attempt. The exceptions of content that cannot be deserialized
  (\<open>UnpicklingError\<close>, \<open>EOFError\<close>) and of an object of the wrong kind (\<open>TypeError\<close>,
  \<open>AttributeError\<close>) are not among the three: they leave \<open>main\<close> uncaught, with
  nothing printed.
\<close>

theorem training_data_errors:
  assumes ck: "resolve_checkpoint W a = Inr (ck, mg)"
  shows "(load_training_data W (training_data a) = Inl e
            \<and> (e = FileNotFoundError m \<or> e = IOError m \<or> e = KeyError m)
          \<longrightarrow> main W a = ([Print [VStr ''[!] Unable to load training data:'', VStr m]], Exit 1))
       \<and> (read_pickle W (training_data a) = Inr (PyDict kvs) \<and> map_of kvs ''preset'' = None
          \<longrightarrow> main W a = ([Print [VStr ''[!] Unable to load training data:'',
                                   VStr ([CHR 0x27] @ ''preset'' @ [CHR 0x27])]], Exit 1))
       \<and> (load_training_data W (training_data a) = Inl e
            \<and> (e = UnpicklingError \<or> e = EOFError \<or> e = TypeError \<or> e = AttributeError)
          \<longrightarrow> main W a = ([], Uncaught e))"
proof (intro conjI impI)
  assume "load_training_data W (training_data a) = Inl e
            \<and> (e = FileNotFoundError m \<or> e = IOError m \<or> e = KeyError m)"
  then have "load_image_size W a
               = Inl ([Print [VStr ''[!] Unable to load training data:'', VStr m]], Exit 1)"
    by (auto simp: load_image_size_def)
  then show "main W a = ([Print [VStr ''[!] Unable to load training data:'', VStr m]], Exit 1)"
    by (rule main_after_checkpoint [OF ck])
next
  assume "read_pickle W (training_data a) = Inr (PyDict kvs) \<and> map_of kvs ''preset'' = None"
  then have "load_image_size W a
               = Inl ([Print [VStr ''[!] Unable to load training data:'',
                              VStr ([CHR 0x27] @ ''preset'' @ [CHR 0x27])]], Exit 1)"
    by (simp add: load_image_size_def load_training_data_def subscript_def)
  then show "main W a = ([Print [VStr ''[!] Unable to load training data:'',
                                 VStr ([CHR 0x27] @ ''preset'' @ [CHR 0x27])]], Exit 1)"
    by (rule main_after_checkpoint [OF ck])
next
  assume "load_training_data W (training_data a) = Inl e
            \<and> (e = UnpicklingError \<or> e = EOFError \<or> e = TypeError \<or> e = AttributeError)"
  then have "load_image_size W a = Inl ([], Uncaught e)"
    by (auto simp: load_image_size_def)
  then show "main W a = ([], Uncaught e)"
    by (rule main_after_checkpoint [OF ck])
qed

lemma demo_checkpoint:
  "resolve_checkpoint demo_env (demo_args\<lparr>training_data := p\<rparr>)
     = Inr (''test/ckpt-3'', ''test/ckpt-3.meta'')"
  by (simp add: resolve_checkpoint_def demo_args_def demo_env_def py_index_def)

theorem training_data_errors_witness:
  "resolve_checkpoint demo_env (demo_args\<lparr>training_data := ''nope.pkl''\<rparr>)
     = Inr (''test/ckpt-3'', ''test/ckpt-3.meta'')
   \<and> load_training_data demo_env (training_data (demo_args\<lparr>training_data := ''nope.pkl''\<rparr>))
       = Inl (FileNotFoundError ''No such file or directory'')
   \<and> main demo_env (demo_args\<lparr>training_data := ''nope.pkl''\<rparr>)
       = ([Print [VStr ''[!] Unable to load training data:'',
                  VStr ''No such file or directory'']], Exit 1)
   \<and> read_pickle demo_env (training_data (demo_args\<lparr>training_data := ''nopreset.pkl''\<rparr>))
       = Inr (PyDict [])
   \<and> main demo_env (demo_args\<lparr>training_data := ''nopreset.pkl''\<rparr>)
       = ([Print [VStr ''[!] Unable to load training data:'',
                  VStr ([CHR 0x27] @ ''preset'' @ [CHR 0x27])]], Exit 1)
   \<and> load_training_data demo_env (training_data (demo_args\<lparr>training_data := ''broken.pkl''\<rparr>))
       = Inl UnpicklingError
   \<and> main demo_env (demo_args\<lparr>training_data := ''broken.pkl''\<rparr>)
       = ([], Uncaught UnpicklingError)"
proof -
  have 1: "load_training_data demo_env
             (training_data (demo_args\<lparr>training_data := ''nope.pkl''\<rparr>))
           = Inl (FileNotFoundError ''No such file or directory'')"
    by (simp add: load_training_data_def demo_env_def)
  have 2: "read_pickle demo_env (training_data (demo_args\<lparr>training_data := ''nopreset.pkl''\<rparr>))
           = Inr (PyDict [])"
    by (simp add: demo_env_def)
  have 3: "load_training_data demo_env
             (training_data (demo_args\<lparr>training_data := ''broken.pkl''\<rparr>))
           = Inl UnpicklingError"
    by (simp add: load_training_data_def demo_env_def)
  from training_data_errors [OF demo_checkpoint,
      of "''nope.pkl''" "FileNotFoundError ''No such file or directory''"
         "''No such file or directory''"] 1
  have m1: "main demo_env (demo_args\<lparr>training_data := ''nope.pkl''\<rparr>)
       = ([Print [VStr ''[!] Unable to load training data:'',
                  VStr ''No such file or directory'']], Exit 1)"
    by blast
  from training_data_errors [OF demo_checkpoint, of "''nopreset.pkl''" _ _ "[]"] 2
  have m2: "main demo_env (demo_args\<lparr>training_data := ''nopreset.pkl''\<rparr>)
       = ([Print [VStr ''[!] Unable to load training data:'',
                  VStr ([CHR 0x27] @ ''preset'' @ [CHR 0x27])]], Exit 1)"
    by simp
  from training_data_errors [OF demo_checkpoint, of "''broken.pkl''" UnpicklingError] 3
  have m3: "main demo_env (demo_args\<lparr>training_data := ''broken.pkl''\<rparr>)
       = ([], Uncaught UnpicklingError)"
    by blast
  from demo_checkpoint 1 2 3 m1 m2 m3 show ?thesis by blast
qed

text \<open>
  Claim C3 as stated fails: a training-data file whose content \<open>pickle.load\<close> rejects
  with \<open>UnpicklingError\<close> is not caught by the handler of line 101. \<open>main\<close> prints
  nothing and does not return 1; the exception goes up to the interpreter.
\<close>

theorem undeserializable_training_data_run:
  "resolve_checkpoint demo_env (demo_args\<lparr>training_data := ''broken.pkl''\<rparr>)
     = Inr (''test/ckpt-3'', ''test/ckpt-3.meta'')
   \<and> read_pickle demo_env (training_data (demo_args\<lparr>training_data := ''broken.pkl''\<rparr>))
       = Inl UnpicklingError
   \<and> main demo_env (demo_args\<lparr>training_data := ''broken.pkl''\<rparr>)
       = ([], Uncaught UnpicklingError)
   \<and> snd (main demo_env (demo_args\<lparr>training_data := ''broken.pkl''\<rparr>)) \<noteq> Exit 1
   \<and> script demo_env (demo_args\<lparr>training_data := ''broken.pkl''\<rparr>) = ([], 1, True)"
  by (simp add: script_def main_def resolve_checkpoint_def load_image_size_def
      load_training_data_def py_index_def demo_env_def demo_args_def)

subsection \<open>Saved predictions and aborted runs\<close>




lemma main_reaches_loop:
  assumes "resolve_checkpoint W a = Inr (c, m)" and "load_image_size W a = Inr s"
    and "resolve_files W a = Inr (fs, made)"
  shows "main W a = (made @ print_parameters a c m s fs @ fst (process_images W a c m s fs),
                     snd (process_images W a c m s fs))"
  using assms by (simp add: main_def case_prod_beta)








subsection \<open>The files that the saves leave\<close>







lemma demo_stages:
  "resolve_checkpoint demo_env (demo_args\<lparr>files := fs\<rparr>)
     = Inr (''test/ckpt-3'', ''test/ckpt-3.meta'')"
  "load_image_size demo_env (demo_args\<lparr>files := fs\<rparr>) = Inr demo_size"
  by (simp_all add: resolve_checkpoint_def py_index_def load_image_size_def
      load_training_data_def subscript_def get_image_size_def
      demo_args_def demo_env_def demo_size_def)

lemma demo_decodes:
  "decodes demo_env demo_size ''in/a.jpg''" "decodes demo_env demo_size ''in/b.jpg''"
  "decodes demo_env demo_size ''in/c.jpg''"
  by (simp_all add: decodes_def read_image_def cv2_resize_def demo_env_def demo_size_def)



text \<open>
  A save that fails ends the run: with an output directory that is a regular file,
  the first \<open>np.save\<close> raises, nothing is saved and the exception leaves \<open>main\<close>.
\<close>

lemma demo_save_fails:
  "snd (main demo_env (demo_args\<lparr>output_dir := ''notes.txt''\<rparr>))
     = Uncaught (IOError ''Not a directory'')
   \<and> saved (fst (main demo_env (demo_args\<lparr>output_dir := ''notes.txt''\<rparr>))) = []"
  by (simp add: main_def resolve_checkpoint_def load_image_size_def load_training_data_def
      subscript_def get_image_size_def resolve_files_def print_parameters_def
      process_images_def process_batch_def py_index_def
      sample_generator_def py_range_def range_len_def py_slice_def adjust_index_def
      read_image_def cv2_resize_def astype_float32_def basename_def
      demo_env_def demo_args_def demo_size_def upt_rec)

text \<open>
  Claim C7. A file that does not decode ends the generator with the exception of
  line 44: the batches before the one holding the first such file are yielded, that
  batch and the later ones are not, nothing is skipped or tried again. Nothing in
  \<open>main\<close> catches it either: a run that reaches the loop ends with an uncaught
  exception, and the process with status 1 and a traceback. The exception is the
  very one of line 44 when the loop body raises nothing before it (the network
  returns a row per image, the saves succeed).
\<close>

theorem decode_failure_aborts_run:
  fixes W :: "('p, 'b) env"
  assumes B: "0 < B" and i: "i < length samples"
    and fail: "read_image W (size_w image_size, size_h image_size) (samples ! i) = Inl e"
    and before: "\<forall>j. j < i \<longrightarrow> decodes W image_size (samples ! j)"
  shows "(\<exists>bs. sample_generator W samples image_size B = (bs, Some e)
            \<and> length bs = i div nat B)
       \<and> (\<forall>a ck mg made.
            resolve_checkpoint W a = Inr (ck, mg) \<and> load_image_size W a = Inr image_size
              \<and> resolve_files W a = Inr (samples, made) \<and> batch_size a = B
            \<longrightarrow> (\<exists>effs e'. main W a = (effs, Uncaught e') \<and> script W a = (effs, 1, True)
                   \<and> ((\<forall>x. length x \<le> length (sess_run W x))
                        \<and> (\<forall>n box. np_save W (output_dir a @ ''/'' @ n @ ''.npy'') box = None)
                      \<longrightarrow> e' = e)))"
proof (intro conjI allI impI)
  from generator_stops_at_failure [OF B i fail before] obtain bs where
    gen: "sample_generator W samples image_size B = (bs, Some e)"
    and len: "length bs = i div nat B"
    by blast
  then show "\<exists>bs. sample_generator W samples image_size B = (bs, Some e)
               \<and> length bs = i div nat B" by blast
  fix a ck mg and made :: "('p, 'b) effect list"
  assume H: "resolve_checkpoint W a = Inr (ck, mg) \<and> load_image_size W a = Inr image_size
              \<and> resolve_files W a = Inr (samples, made) \<and> batch_size a = B"
  obtain effs r where cons: "consume W a bs (Some e) = (effs, r)"
    by (cases "consume W a bs (Some e)")
  with consume_raises [of W a bs e] obtain e' where r: "r = Some e'" by auto
  let ?start = "[Print [VStr ''[i] Creating the model...''], BuildFromMetagraph mg ck]
                  :: ('p, 'b) effect list"
  have pi: "process_images W a ck mg image_size samples = (?start @ effs, Uncaught e')"
    using H B gen cons r by (simp add: process_images_def)
  let ?all = "made @ print_parameters a ck mg image_size samples @ ?start @ effs"
  from H have main: "main W a = (?all, Uncaught e')"
    by (simp add: main_reaches_loop [of W a ck mg image_size samples made] pi)
  then have script: "script W a = (?all, 1, True)" by (simp add: script_def)
  have same: "e' = e"
    if ok: "(\<forall>x. length x \<le> length (sess_run W x))
            \<and> (\<forall>n box. np_save W (output_dir a @ ''/'' @ n @ ''.npy'') box = None)"
  proof (cases "annotate a \<and> dump_prediction a")
    case True
    have rows: "\<forall>b \<in> set bs. length (snd b) \<le> length (sess_run W (fst b))"
    proof
      fix b assume "b \<in> set bs"
      then obtain k where "k < length bs" "b = bs ! k" by (auto simp: in_set_conv_nth)
      then have "length (snd b) = length (fst b)" using yielded_batch_nth(1) [OF gen] by simp
      with ok show "length (snd b) \<le> length (sess_run W (fst b))" by simp
    qed
    from ok have nosave: "\<forall>n box. np_save W (output_dir a @ ''/'' @ n @ ''.npy'') box = None"
      by simp
    from True have "annotate a" "dump_prediction a" by simp_all
    from consume_dump [OF this rows nosave, of "Some e"] cons r show ?thesis by auto
  next
    case False
    from consume_plain [OF this, of W bs "Some e"] cons r show ?thesis by simp
  qed
  from main script same
  show "\<exists>effs e'. main W a = (effs, Uncaught e') \<and> script W a = (effs, 1, True)
          \<and> ((\<forall>x. length x \<le> length (sess_run W x))
               \<and> (\<forall>n box. np_save W (output_dir a @ ''/'' @ n @ ''.npy'') box = None)
             \<longrightarrow> e' = e)"
    by blast
qed

theorem decode_failure_aborts_run_witness:
  "(0::int) < 2 \<and> (2::nat) < length [''in/a.jpg'', ''in/b.jpg'', ''notes.txt'']
   \<and> read_image demo_env (size_w demo_size, size_h demo_size)
        ([''in/a.jpg'', ''in/b.jpg'', ''notes.txt''] ! 2) = Inl CvError
   \<and> decodes demo_env demo_size ([''in/a.jpg'', ''in/b.jpg'', ''notes.txt''] ! 0)
   \<and> decodes demo_env demo_size ([''in/a.jpg'', ''in/b.jpg'', ''notes.txt''] ! 1)
   \<and> (\<exists>bs. sample_generator demo_env [''in/a.jpg'', ''in/b.jpg'', ''notes.txt''] demo_size 2
              = (bs, Some CvError) \<and> length bs = 2 div nat 2)
   \<and> resolve_checkpoint demo_env (demo_args\<lparr>files := [''in/a.jpg'', ''in/b.jpg'', ''notes.txt'']\<rparr>)
       = Inr (''test/ckpt-3'', ''test/ckpt-3.meta'')
   \<and> load_image_size demo_env (demo_args\<lparr>files := [''in/a.jpg'', ''in/b.jpg'', ''notes.txt'']\<rparr>)
       = Inr demo_size
   \<and> resolve_files demo_env (demo_args\<lparr>files := [''in/a.jpg'', ''in/b.jpg'', ''notes.txt'']\<rparr>)
       = Inr ([''in/a.jpg'', ''in/b.jpg'', ''notes.txt''], [MakeDirs ''out''])
   \<and> batch_size (demo_args\<lparr>files := [''in/a.jpg'', ''in/b.jpg'', ''notes.txt'']\<rparr>) = 2
   \<and> (\<forall>x. length x \<le> length (sess_run demo_env x))
   \<and> (\<forall>n box. np_save demo_env
                  (output_dir (demo_args\<lparr>files := [''in/a.jpg'', ''in/b.jpg'', ''notes.txt'']\<rparr>)
                     @ ''/'' @ n @ ''.npy'') box = None)
   \<and> (\<exists>effs. main demo_env (demo_args\<lparr>files := [''in/a.jpg'', ''in/b.jpg'', ''notes.txt'']\<rparr>)
                = (effs, Uncaught CvError)
         \<and> script demo_env (demo_args\<lparr>files := [''in/a.jpg'', ''in/b.jpg'', ''notes.txt'']\<rparr>)
             = (effs, 1, True))"
proof -
  let ?fs = "[''in/a.jpg'', ''in/b.jpg'', ''notes.txt'']"
  let ?a = "demo_args\<lparr>files := ?fs\<rparr>"
  have B: "(0::int) < 2" by simp
  have i: "(2::nat) < length ?fs" by simp
  have fail: "read_image demo_env (size_w demo_size, size_h demo_size) (?fs ! 2) = Inl CvError"
    by (simp add: read_image_def cv2_resize_def demo_env_def)
  have d: "decodes demo_env demo_size (?fs ! 0)" "decodes demo_env demo_size (?fs ! 1)"
    using demo_decodes by simp_all
  have before: "\<forall>j. j < 2 \<longrightarrow> decodes demo_env demo_size (?fs ! j)"
  proof (intro allI impI)
    fix j :: nat assume "j < 2"
    then have "j = 0 \<or> j = 1" by auto
    with d show "decodes demo_env demo_size (?fs ! j)" by auto
  qed
  have rf: "resolve_files demo_env ?a = Inr (?fs, [MakeDirs ''out''])"
    by (simp add: resolve_files_def demo_args_def demo_env_def)
  have bs: "batch_size ?a = 2" by (simp add: demo_args_def)
  have net: "\<forall>x. length x \<le> length (sess_run demo_env x)" by (simp add: demo_env_def)
  have nosave: "\<forall>n box. np_save demo_env (output_dir ?a @ ''/'' @ n @ ''.npy'') box = None"
    by (simp add: demo_env_def demo_args_def)
  note inst = decode_failure_aborts_run [OF B i fail before]
  from inst have gen: "\<exists>bs. sample_generator demo_env ?fs demo_size 2 = (bs, Some CvError)
                         \<and> length bs = 2 div nat 2" by (rule conjunct1)
  from inst demo_stages [of ?fs] rf bs
  obtain effs e' where "main demo_env ?a = (effs, Uncaught e')"
    "script demo_env ?a = (effs, 1, True)"
    "(\<forall>x. length x \<le> length (sess_run demo_env x))
       \<and> (\<forall>n box. np_save demo_env (output_dir ?a @ ''/'' @ n @ ''.npy'') box = None)
     \<longrightarrow> e' = CvError"
    by blast
  with net nosave have "\<exists>effs. main demo_env ?a = (effs, Uncaught CvError)
                   \<and> script demo_env ?a = (effs, 1, True)" by blast
  with B i fail d gen demo_stages [of ?fs] rf bs net nosave show ?thesis by blast
qed

end
